theory Spec2Isabelle
  imports Main
begin

section \<open>Data model\<close>

text \<open>
  The program is \<^verbatim>\<open>test-webhook-receiver.py\<close>: one request handler
  (\<^verbatim>\<open>WebhookHandler.do_POST\<close>), the start-up function \<^verbatim>\<open>run_server\<close> and the
  script body under \<^verbatim>\<open>if __name__ == '__main__'\<close>.

  A Python \<^verbatim>\<open>bytes\<close> object is a list of HOL characters (a HOL \<open>char\<close> is one
  8-bit byte). A Python \<^verbatim>\<open>str\<close> is a list of Unicode code points. HTTP header
  values and command-line arguments are strings of 8-bit characters (the standard
  library decodes header lines as ISO-8859-1, so each character is one code point
  below 256).
\<close>

type_synonym bytes = "char list"

type_synonym pystr = "nat list"

definition ascii :: "string \<Rightarrow> pystr" where
  "ascii s = map of_char s"

text \<open>
  Exceptions are values. Each constructor is a Python exception class; all of them
  are subclasses of \<^verbatim>\<open>Exception\<close>, so an \<^verbatim>\<open>except Exception\<close> clause
  catches every one of them. \<open>ValueError_literal s\<close> is the \<^verbatim>\<open>ValueError\<close>
  that \<^verbatim>\<open>int(s)\<close> raises for a string that is no integer literal;
  \<open>UnicodeDecodeError\<close> and \<open>UnicodeEncodeError\<close> hold the object, the start and end
  of the offending range and the reason, and \<open>JSONDecodeError\<close> the message, line,
  column and character position, as the Python exception objects do.
\<close>

datatype exn =
    TypeError pystr
  | ValueError pystr
  | ValueError_literal string
  | AttributeError pystr
  | OverflowError pystr
  | OSError pystr
  | KeyError pystr
  | MemoryError
  | UnicodeDecodeError bytes nat nat pystr
  | UnicodeEncodeError pystr nat nat pystr
  | JSONDecodeError pystr nat nat nat

subsection \<open>Decimal and hexadecimal text\<close>

function str_nat :: "nat \<Rightarrow> pystr" where
  "str_nat n = (if n < 10 then [48 + n] else str_nat (n div 10) @ [48 + n mod 10])"
  by pat_completeness auto
termination
  by (relation "measure id") auto

declare str_nat.simps [simp del]

definition str_int :: "int \<Rightarrow> pystr" where
  "str_int i = (if i < 0 then 45 # str_nat (nat (- i)) else str_nat (nat i))"

definition hex_digit :: "nat \<Rightarrow> nat" where
  "hex_digit d = (if d < 10 then 48 + d else 87 + d)"

section \<open>Library functions the handler calls\<close>

subsection \<open>\<^verbatim>\<open>bytes.decode('utf-8')\<close>\<close>

text \<open>
  The strict UTF-8 decoder of CPython. \<open>utf8_one\<close> decodes one character at the head
  of the input and returns the code point and the rest, or an error code: 0 for input
  that ends inside a sequence, 1 for an invalid start byte, and 2, 3, 4 for an invalid
  first, second or third continuation byte. Overlong forms, the surrogates
  U+D800..U+DFFF and values above U+10FFFF are rejected through the range checks on
  the first continuation byte.
\<close>

definition is_continuation :: "nat \<Rightarrow> bool" where
  "is_continuation c \<longleftrightarrow> 128 \<le> c \<and> c < 192"

fun utf8_one :: "nat list \<Rightarrow> nat + (nat \<times> nat list)" where
  "utf8_one [] = Inl 0"
| "utf8_one (ch # s) =
    (if ch < 128 then Inr (ch, s)
     else if ch < 224 then
       (if ch < 194 then Inl 1
        else case s of
            [] \<Rightarrow> Inl 0
          | ch2 # s2 \<Rightarrow>
              if \<not> is_continuation ch2 then Inl 2
              else Inr ((ch - 192) * 64 + (ch2 - 128), s2))
     else if ch < 240 then
       (case s of
          [] \<Rightarrow> Inl 0
        | ch2 # s2 \<Rightarrow>
            if \<not> is_continuation ch2 then Inl 2
            else if (if ch2 < 160 then ch = 224 else ch = 237) then Inl 2
            else case s2 of
                [] \<Rightarrow> Inl 0
              | ch3 # s3 \<Rightarrow>
                  if \<not> is_continuation ch3 then Inl 3
                  else Inr ((ch - 224) * 4096 + (ch2 - 128) * 64 + (ch3 - 128), s3))
     else if ch < 245 then
       (case s of
          [] \<Rightarrow> Inl 0
        | ch2 # s2 \<Rightarrow>
            if \<not> is_continuation ch2 then Inl 2
            else if (if ch2 < 144 then ch = 240 else ch = 244) then Inl 2
            else case s2 of
                [] \<Rightarrow> Inl 0
              | ch3 # s3 \<Rightarrow>
                  if \<not> is_continuation ch3 then Inl 3
                  else case s3 of
                      [] \<Rightarrow> Inl 0
                    | ch4 # s4 \<Rightarrow>
                        if \<not> is_continuation ch4 then Inl 4
                        else Inr ((ch - 240) * 262144 + (ch2 - 128) * 4096
                                   + (ch3 - 128) * 64 + (ch4 - 128), s4))
     else Inl 1)"

lemma utf8_one_shorter: "utf8_one bs = Inr (c, rest) \<Longrightarrow> length rest < length bs"
  by (cases bs) (auto split: if_splits list.splits)

definition utf8_error :: "bytes \<Rightarrow> nat \<Rightarrow> nat \<Rightarrow> exn" where
  "utf8_error obj pos code =
     (if code = 0 then UnicodeDecodeError obj pos (length obj) (ascii ''unexpected end of data'')
      else if code = 1 then UnicodeDecodeError obj pos (pos + 1) (ascii ''invalid start byte'')
      else UnicodeDecodeError obj pos (pos + code - 1) (ascii ''invalid continuation byte''))"

function utf8_from :: "bytes \<Rightarrow> nat \<Rightarrow> nat list \<Rightarrow> exn + pystr" where
  "utf8_from obj pos bs =
     (if bs = [] then Inr []
      else case utf8_one bs of
          Inl code \<Rightarrow> Inl (utf8_error obj pos code)
        | Inr (c, rest) \<Rightarrow>
            (case utf8_from obj (pos + (length bs - length rest)) rest of
               Inl e \<Rightarrow> Inl e
             | Inr cs \<Rightarrow> Inr (c # cs)))"
  by pat_completeness auto
termination
  by (relation "measure (\<lambda>(obj, pos, bs). length bs)") (auto dest: utf8_one_shorter)

declare utf8_from.simps [simp del]

definition utf8_decode :: "bytes \<Rightarrow> exn + pystr" where
  "utf8_decode b = utf8_from b 0 (map of_char b)"

subsection \<open>\<^verbatim>\<open>int(s)\<close>\<close>

text \<open>
  \<^verbatim>\<open>int(s)\<close> on a string of 8-bit characters: white space is stripped at both ends
  (tab, line feed, vertical tab, form feed, carriage return, space, and the two
  non-ASCII spaces U+0085 and U+00A0), then comes an optional sign and decimal digits,
  where single underscores may stand between digits. More than 4300 digits are
  refused (the interpreter's default limit on integer string conversion).
  \<^verbatim>\<open>int(None)\<close> raises \<^verbatim>\<open>TypeError\<close>.
\<close>

definition int_space :: "nat \<Rightarrow> bool" where
  "int_space c \<longleftrightarrow> (9 \<le> c \<and> c \<le> 13) \<or> c = 32 \<or> c = 133 \<or> c = 160"

definition is_digit :: "nat \<Rightarrow> bool" where
  "is_digit c \<longleftrightarrow> 48 \<le> c \<and> c \<le> 57"

fun digits_ok :: "nat list \<Rightarrow> bool" where
  "digits_ok [] = False"
| "digits_ok [c] = is_digit c"
| "digits_ok (c # d # cs) =
     (is_digit c \<and> (if d = 95 then digits_ok cs else digits_ok (d # cs)))"

definition digits_value :: "nat list \<Rightarrow> nat" where
  "digits_value ds = foldl (\<lambda>v c. 10 * v + (c - 48)) 0 ds"

definition int_max_str_digits :: nat where
  "int_max_str_digits = 4300"

definition digit_limit_message :: "nat \<Rightarrow> pystr" where
  "digit_limit_message n =
     ascii ''Exceeds the limit (4300 digits) for integer string conversion: value has ''
     @ str_nat n @ ascii '' digits; use sys.set_int_max_str_digits() to increase the limit''"

definition py_int :: "string \<Rightarrow> exn + int" where
  "py_int s =
     (let t = rev (dropWhile int_space (rev (dropWhile int_space (map of_char s))));
          neg = (t \<noteq> [] \<and> hd t = 45);
          u = (if t \<noteq> [] \<and> (hd t = 45 \<or> hd t = 43) then tl t else t);
          ds = filter (\<lambda>c. c \<noteq> 95) u
      in if \<not> digits_ok u then Inl (ValueError_literal s)
         else if length ds > int_max_str_digits then Inl (ValueError (digit_limit_message (length ds)))
         else Inr (if neg then - int (digits_value ds) else int (digits_value ds)))"

definition py_int_opt :: "string option \<Rightarrow> exn + int" where
  "py_int_opt v =
     (case v of
        None \<Rightarrow> Inl (TypeError (ascii
          ''int() argument must be a string, a bytes-like object or a real number, not ''
          @ [39] @ ascii ''NoneType'' @ [39]))
      | Some s \<Rightarrow> py_int s)"

subsection \<open>Python values\<close>

text \<open>
  The values \<^verbatim>\<open>json.loads\<close> returns. A \<^verbatim>\<open>dict\<close> is an association list with
  distinct keys in insertion order, which is the order \<^verbatim>\<open>items()\<close> iterates in.
  A \<^verbatim>\<open>float\<close> is kept as the literal it was read from (\<^verbatim>\<open>NaN\<close>,
  \<^verbatim>\<open>Infinity\<close> and \<^verbatim>\<open>-Infinity\<close> included): the decoder passes exactly that
  text to \<^verbatim>\<open>float\<close>, and binary floating point is not part of this model.
\<close>

datatype pyval =
    PNone
  | PBool bool
  | PInt int
  | PFloat pystr
  | PStr pystr
  | PList "pyval list"
  | PDict "(pystr \<times> pyval) list"

fun dict_find :: "(pystr \<times> pyval) list \<Rightarrow> pystr \<Rightarrow> pyval option" where
  "dict_find [] k = None"
| "dict_find ((k', v) # d) k = (if k' = k then Some v else dict_find d k)"

fun dict_set :: "(pystr \<times> pyval) list \<Rightarrow> pystr \<Rightarrow> pyval \<Rightarrow> (pystr \<times> pyval) list" where
  "dict_set [] k v = [(k, v)]"
| "dict_set ((k', v') # d) k v = (if k' = k then (k, v) # d else (k', v') # dict_set d k v)"

subsection \<open>\<^verbatim>\<open>json.loads\<close>\<close>

text \<open>
  The decoder of CPython 3.11 (\<^verbatim>\<open>json.loads\<close> with its default arguments, which
  runs the scanner of \<^verbatim>\<open>Modules/_json.c\<close>). The functions work on the rest of the
  document; \<open>n\<close> is the length of the whole document, so that \<open>n - length s\<close> is the
  index \<^verbatim>\<open>idx\<close> of the first character of the rest \<open>s\<close>.

  Two limits of the interpreter are part of the behaviour of \<^verbatim>\<open>json.loads\<close>. An integer
  literal of more than 4300 digits raises \<^verbatim>\<open>ValueError\<close>; this is modelled. Nesting
  deeper than the recursion limit raises \<^verbatim>\<open>RecursionError\<close>; this is not modelled,
  the decoder below accepts any depth. Both are subclasses of \<^verbatim>\<open>Exception\<close>.
\<close>

datatype scan_error =
    StopIteration nat
  | Errmsg pystr nat
  | DigitLimit nat

definition is_whitespace :: "nat \<Rightarrow> bool" where
  "is_whitespace c \<longleftrightarrow> c = 32 \<or> c = 9 \<or> c = 10 \<or> c = 13"

definition hex_val :: "nat \<Rightarrow> nat option" where
  "hex_val c =
     (if 48 \<le> c \<and> c \<le> 57 then Some (c - 48)
      else if 97 \<le> c \<and> c \<le> 102 then Some (c - 87)
      else if 65 \<le> c \<and> c \<le> 70 then Some (c - 55)
      else None)"

definition hex_escape :: "nat list \<Rightarrow> nat option" where
  "hex_escape cs =
     (if list_all (\<lambda>c. hex_val c \<noteq> None) cs
      then Some (foldl (\<lambda>v c. 16 * v + the (hex_val c)) 0 cs)
      else None)"

definition escape_char :: "nat \<Rightarrow> nat option" where
  "escape_char e =
     (if e = 34 \<or> e = 92 \<or> e = 47 then Some e
      else if e = 98 then Some 8
      else if e = 102 then Some 12
      else if e = 110 then Some 10
      else if e = 114 then Some 13
      else if e = 116 then Some 9
      else None)"

definition msg_invalid_escape :: pystr where
  "msg_invalid_escape = ascii ''Invalid '' @ [92] @ ascii ''escape''"

definition msg_invalid_unicode_escape :: pystr where
  "msg_invalid_unicode_escape = ascii ''Invalid '' @ [92] @ ascii ''uXXXX escape''"

definition cons_char :: "nat \<Rightarrow> scan_error + (pystr \<times> nat list) \<Rightarrow> scan_error + (pystr \<times> nat list)" where
  "cons_char x r = (case r of Inl e \<Rightarrow> Inl e | Inr (k, s) \<Rightarrow> Inr (x # k, s))"

text \<open>
  \<open>scanstring n begin s\<close> reads a string literal whose opening quote has been consumed;
  \<open>begin\<close> is the index after the quote. A \<^verbatim>\<open>\uXXXX\<close> escape needs a character
  after its four digits; a high surrogate followed by an escaped low surrogate (with a
  character after it) is joined into one code point, any other surrogate stays alone.
\<close>

function scanstring :: "nat \<Rightarrow> nat \<Rightarrow> nat list \<Rightarrow> scan_error + (pystr \<times> nat list)" where
  "scanstring n begin s =
     (case s of
        [] \<Rightarrow> Inl (Errmsg (ascii ''Unterminated string starting at'') (begin - 1))
      | c # cs \<Rightarrow>
          if c = 34 then Inr ([], cs)
          else if c = 92 then
            (case cs of
               [] \<Rightarrow> Inl (Errmsg (ascii ''Unterminated string starting at'') (begin - 1))
             | e # es \<Rightarrow>
                 if e \<noteq> 117 then
                   (case escape_char e of
                      None \<Rightarrow> Inl (Errmsg msg_invalid_escape (n - length s))
                    | Some x \<Rightarrow> cons_char x (scanstring n begin es))
                 else if length es < 5 then
                   Inl (Errmsg msg_invalid_unicode_escape (n - length cs))
                 else
                   (case hex_escape (take 4 es) of
                      None \<Rightarrow> Inl (Errmsg msg_invalid_unicode_escape (n - length cs))
                    | Some u \<Rightarrow>
                        if 55296 \<le> u \<and> u \<le> 56319 \<and> length (drop 4 es) > 6
                           \<and> take 2 (drop 4 es) = [92, 117] then
                          (case hex_escape (take 4 (drop 6 es)) of
                             None \<Rightarrow> Inl (Errmsg msg_invalid_unicode_escape
                                           (n - length (drop 4 es) + 1))
                           | Some u2 \<Rightarrow>
                               if 56320 \<le> u2 \<and> u2 \<le> 57343 then
                                 cons_char (65536 + (u - 55296) * 1024 + (u2 - 56320))
                                   (scanstring n begin (drop 10 es))
                               else cons_char u (scanstring n begin (drop 4 es)))
                        else cons_char u (scanstring n begin (drop 4 es))))
          else if c \<le> 31 then Inl (Errmsg (ascii ''Invalid control character at'') (n - length s))
          else cons_char c (scanstring n begin cs))"
  by pat_completeness auto
termination
  by (relation "measure (\<lambda>(n, begin, s). length s)") auto

declare scanstring.simps [simp del]

lemma cons_char_Inr: "cons_char x r = Inr (k, s1) \<Longrightarrow> \<exists>k'. r = Inr (k', s1)"
  by (auto simp: cons_char_def split: sum.splits)

lemma scanstring_shorter: "scanstring n b s = Inr (k, s1) \<Longrightarrow> length s1 < length s"
proof (induction s arbitrary: k rule: length_induct)
  case (1 s)
  have IH: "\<And>t k'. scanstring n b t = Inr (k', s1) \<Longrightarrow> length t < length s \<longrightarrow> length s1 < length t"
    using "1.IH" by blast
  show ?case
    using "1.prems"
    apply (subst (asm) scanstring.simps)
    apply (auto split: list.splits if_splits option.splits dest!: cons_char_Inr IH)
    done
qed

lemma dropWhile_Cons_length: "dropWhile P xs = y # ys \<Longrightarrow> length ys < length xs"
  using length_dropWhile_le [of P xs] by simp

lemma dropWhile_length_less: "length xs < n \<Longrightarrow> length (dropWhile P xs) < n"
  using length_dropWhile_le [of P xs] by simp

lemma dropWhile_length_measure:
  "length xs < length b \<Longrightarrow> length b < m \<Longrightarrow> 2 * length (dropWhile P xs) < Suc (Suc (Suc (2 * m)))"
  using length_dropWhile_le [of P xs] by simp

text \<open>
  A number is the longest text of the form
  \<^verbatim>\<open>-?(0|[1-9][0-9]*)(\.[0-9]+)?([eE][-+]?[0-9]+)?\<close>. \<open>int_part\<close>, \<open>frac_part\<close> and
  \<open>exp_part\<close> return the integer part, the fraction and the exponent at the head
  of their argument, or the empty list. Without fraction and exponent the number is an
  \<^verbatim>\<open>int\<close>, otherwise a \<^verbatim>\<open>float\<close>.
\<close>

definition int_part :: "nat list \<Rightarrow> nat list" where
  "int_part s =
     (case s of
        [] \<Rightarrow> []
      | c # cs \<Rightarrow>
          if c = 48 then [48]
          else if 49 \<le> c \<and> c \<le> 57 then c # takeWhile is_digit cs
          else [])"

definition frac_part :: "nat list \<Rightarrow> nat list" where
  "frac_part s =
     (case s of
        c # d # ds \<Rightarrow> if c = 46 \<and> is_digit d then c # takeWhile is_digit (d # ds) else []
      | _ \<Rightarrow> [])"

definition exp_part :: "nat list \<Rightarrow> nat list" where
  "exp_part s =
     (case s of
        [] \<Rightarrow> []
      | e # t \<Rightarrow>
          if e = 101 \<or> e = 69 then
            (let sg = (case t of [] \<Rightarrow> [] | x # xs \<Rightarrow> if x = 45 \<or> x = 43 then [x] else []);
                 ds = takeWhile is_digit (drop (length sg) t)
             in if ds = [] then [] else e # sg @ ds)
          else [])"

definition match_number :: "nat \<Rightarrow> nat list \<Rightarrow> scan_error + (pyval \<times> nat list)" where
  "match_number n s =
     (let neg = (case s of [] \<Rightarrow> False | c # cs \<Rightarrow> c = 45);
          s1 = (if neg then tl s else s);
          ip = int_part s1;
          fp = frac_part (drop (length ip) s1);
          ep = exp_part (drop (length ip + length fp) s1);
          rest = drop (length ip + length fp + length ep) s1
      in if ip = [] then Inl (StopIteration (n - length s))
         else if fp = [] \<and> ep = [] then
           (if length ip > int_max_str_digits then Inl (DigitLimit (length ip))
            else Inr (PInt (if neg then - int (digits_value ip) else int (digits_value ip)), rest))
         else Inr (PFloat ((if neg then [45] else []) @ ip @ fp @ ep), rest))"

lemma match_number_consumes:
  assumes "match_number n s = Inr (v, s1)"
  shows "length s1 < length s"
proof -
  define t where "t = (if (case s of [] \<Rightarrow> False | c # cs \<Rightarrow> c = 45) then tl s else s)"
  from assms have ip: "int_part t \<noteq> []"
    and le: "length s1 \<le> length t - length (int_part t)"
    by (auto simp: match_number_def Let_def t_def split: if_splits)
  from ip have "t \<noteq> []" by (auto simp: int_part_def)
  with ip le have "length s1 < length t" by (cases "int_part t"; cases t) auto
  moreover have "length t \<le> length s" by (simp add: t_def)
  ultimately show ?thesis by simp
qed

text \<open>
  \<open>scan_once\<close> reads one value; \<open>parse_array\<close> and \<open>parse_object\<close> are the loops over
  the elements of a non-empty array and the members of a non-empty object, entered after
  the white space behind the opening bracket. A loop goes round again on a strictly
  shorter rest (lemma \<open>scan_once_consumes\<close> below: a value has at least one
  character), so the final \<open>else\<close> of each loop is never taken.
\<close>

function scan_once :: "nat \<Rightarrow> nat list \<Rightarrow> scan_error + (pyval \<times> nat list)"
  and parse_array :: "nat \<Rightarrow> nat list \<Rightarrow> pyval list \<Rightarrow> scan_error + (pyval \<times> nat list)"
  and parse_object :: "nat \<Rightarrow> nat list \<Rightarrow> (pystr \<times> pyval) list \<Rightarrow> scan_error + (pyval \<times> nat list)"
where
  "scan_once n s =
     (case s of
        [] \<Rightarrow> Inl (StopIteration (n - length s))
      | c # cs \<Rightarrow>
          if c = 34 then
            (case scanstring n (n - length cs) cs of
               Inl e \<Rightarrow> Inl e
             | Inr (k, s1) \<Rightarrow> Inr (PStr k, s1))
          else if c = 123 then
            (case dropWhile is_whitespace cs of
               [] \<Rightarrow> parse_object n [] []
             | d # ds \<Rightarrow> if d = 125 then Inr (PDict [], ds) else parse_object n (d # ds) [])
          else if c = 91 then
            (case dropWhile is_whitespace cs of
               [] \<Rightarrow> parse_array n [] []
             | d # ds \<Rightarrow> if d = 93 then Inr (PList [], ds) else parse_array n (d # ds) [])
          else if c = 110 \<and> take 3 cs = ascii ''ull'' then Inr (PNone, drop 3 cs)
          else if c = 116 \<and> take 3 cs = ascii ''rue'' then Inr (PBool True, drop 3 cs)
          else if c = 102 \<and> take 4 cs = ascii ''alse'' then Inr (PBool False, drop 4 cs)
          else if c = 78 \<and> take 2 cs = ascii ''aN'' then Inr (PFloat (ascii ''NaN''), drop 2 cs)
          else if c = 73 \<and> take 7 cs = ascii ''nfinity'' then Inr (PFloat (ascii ''Infinity''), drop 7 cs)
          else if c = 45 \<and> take 8 cs = ascii ''Infinity'' then Inr (PFloat (ascii ''-Infinity''), drop 8 cs)
          else match_number n s)"
| "parse_array n s acc =
     (case scan_once n s of
        Inl e \<Rightarrow> Inl e
      | Inr (v, s1) \<Rightarrow>
          (case dropWhile is_whitespace s1 of
             [] \<Rightarrow> Inl (Errmsg (ascii ''Expecting ',' delimiter'') n)
           | c # cs \<Rightarrow>
               if c = 93 then Inr (PList (acc @ [v]), cs)
               else if c \<noteq> 44 then Inl (Errmsg (ascii ''Expecting ',' delimiter'') (n - length (c # cs)))
               else if length (dropWhile is_whitespace cs) < length s
                 then parse_array n (dropWhile is_whitespace cs) (acc @ [v])
               else Inl (StopIteration n)))"
| "parse_object n s acc =
     (case s of
        [] \<Rightarrow> Inl (Errmsg (ascii ''Expecting property name enclosed in double quotes'') n)
      | q # cs \<Rightarrow>
          if q \<noteq> 34 then
            Inl (Errmsg (ascii ''Expecting property name enclosed in double quotes'') (n - length s))
          else
            (case scanstring n (n - length cs) cs of
               Inl e \<Rightarrow> Inl e
             | Inr (key, s1) \<Rightarrow>
                 (case dropWhile is_whitespace s1 of
                    [] \<Rightarrow> Inl (Errmsg (ascii ''Expecting ':' delimiter'') n)
                  | c2 # cs2 \<Rightarrow>
                      if c2 \<noteq> 58 then
                        Inl (Errmsg (ascii ''Expecting ':' delimiter'') (n - length (c2 # cs2)))
                      else
                        (case scan_once n (dropWhile is_whitespace cs2) of
                           Inl e \<Rightarrow> Inl e
                         | Inr (v, s4) \<Rightarrow>
                             (case dropWhile is_whitespace s4 of
                                [] \<Rightarrow> Inl (Errmsg (ascii ''Expecting ',' delimiter'') n)
                              | c5 # cs5 \<Rightarrow>
                                  if c5 = 125 then Inr (PDict (dict_set acc key v), cs5)
                                  else if c5 \<noteq> 44 then
                                    Inl (Errmsg (ascii ''Expecting ',' delimiter'') (n - length (c5 # cs5)))
                                  else if length (dropWhile is_whitespace cs5) < length s
                                    then parse_object n (dropWhile is_whitespace cs5) (dict_set acc key v)
                                  else Inl (StopIteration n))))))"
  by pat_completeness auto
termination
  apply (relation "measure (\<lambda>x. case x of
            Inl (n, s) \<Rightarrow> 2 * length s
          | Inr (Inl (n, s, acc)) \<Rightarrow> 2 * length s + 1
          | Inr (Inr (n, s, acc)) \<Rightarrow> 2 * length s + 1)")
  apply simp_all
  apply (auto dest!: scanstring_shorter dropWhile_Cons_length
              intro: dropWhile_length_less dropWhile_length_measure)
  done

declare scan_once.simps [simp del] parse_array.simps [simp del] parse_object.simps [simp del]

lemma scan_once_consumes:
  "(\<forall>n v s1. scan_once n s = Inr (v, s1) \<longrightarrow> length s1 < length s)
   \<and> (\<forall>n v s1 acc. parse_array n s acc = Inr (v, s1) \<longrightarrow> length s1 < length s)
   \<and> (\<forall>n v s1 acc. parse_object n s acc = Inr (v, s1) \<longrightarrow> length s1 < length s)"
proof (induction s rule: length_induct)
  case (1 s)
  have IHa: "length s1 < length t"
    if "parse_array n t acc = Inr (v, s1)" "length t < length s" for t n v s1 acc
    using "1.IH" that by blast
  have IHo: "length s1 < length t"
    if "parse_object n t acc = Inr (v, s1)" "length t < length s" for t n v s1 acc
    using "1.IH" that by blast
  have IHs: "length s1 < length t"
    if "scan_once n t = Inr (v, s1)" "length t < length s" for t n v s1
    using "1.IH" that by blast
  have A: "length s1 < length s" if a: "scan_once n s = Inr (v, s1)" for n v s1
  proof (cases s)
    case Nil
    with a show ?thesis by (simp add: scan_once.simps)
  next
    case (Cons c cs)
    have le: "length (dropWhile is_whitespace cs) \<le> length cs"
      by (rule length_dropWhile_le)
    consider (str) "c = 34" | (obj) "c = 123" | (arr) "c = 91"
      | (other) "c \<noteq> 34" "c \<noteq> 123" "c \<noteq> 91" by blast
    then show ?thesis
    proof cases
      case str
      with a Cons obtain k where "scanstring n (n - length cs) cs = Inr (k, s1)"
        by (auto simp: scan_once.simps split: sum.splits)
      from scanstring_shorter [OF this] Cons show ?thesis by simp
    next
      case obj
      show ?thesis
      proof (cases "dropWhile is_whitespace cs")
        case Nil
        with a Cons obj have "parse_object n [] [] = Inr (v, s1)"
          by (simp add: scan_once.simps)
        then show ?thesis by (simp add: parse_object.simps)
      next
        case (Cons d ds)
        note dw = Cons
        show ?thesis
        proof (cases "d = 125")
          case True
          with a \<open>s = c # cs\<close> obj dw have "s1 = ds" by (simp add: scan_once.simps)
          with le dw \<open>s = c # cs\<close> show ?thesis by simp
        next
          case False
          with a \<open>s = c # cs\<close> obj dw have p: "parse_object n (d # ds) [] = Inr (v, s1)"
            by (simp add: scan_once.simps)
          have "length (d # ds) < length s" using le dw \<open>s = c # cs\<close> by simp
          from IHo [OF p this] this show ?thesis by simp
        qed
      qed
    next
      case arr
      show ?thesis
      proof (cases "dropWhile is_whitespace cs")
        case Nil
        with a Cons arr have "parse_array n [] [] = Inr (v, s1)"
          by (simp add: scan_once.simps)
        then show ?thesis by (simp add: parse_array.simps scan_once.simps)
      next
        case (Cons d ds)
        note dw = Cons
        show ?thesis
        proof (cases "d = 93")
          case True
          with a \<open>s = c # cs\<close> arr dw have "s1 = ds" by (simp add: scan_once.simps)
          with le dw \<open>s = c # cs\<close> show ?thesis by simp
        next
          case False
          with a \<open>s = c # cs\<close> arr dw have p: "parse_array n (d # ds) [] = Inr (v, s1)"
            by (simp add: scan_once.simps)
          have "length (d # ds) < length s" using le dw \<open>s = c # cs\<close> by simp
          from IHa [OF p this] this show ?thesis by simp
        qed
      qed
    next
      case other
      with a Cons have "(\<exists>k. s1 = drop k cs) \<or> match_number n s = Inr (v, s1)"
        by (subst (asm) scan_once.simps) (simp split: if_splits, blast+)
      then show ?thesis
      proof
        assume "\<exists>k. s1 = drop k cs"
        with Cons show ?thesis by auto
      next
        assume "match_number n s = Inr (v, s1)"
        then show ?thesis by (rule match_number_consumes)
      qed
    qed
  qed
  have B: "length s1 < length s" if b: "parse_array n s acc = Inr (v, s1)" for n v s1 acc
  proof -
    from b obtain v' t1 where so: "scan_once n s = Inr (v', t1)"
      by (subst (asm) parse_array.simps) (auto split: sum.splits)
    from A [OF so] have t1: "length t1 < length s" .
    from b so obtain c cs where dw: "dropWhile is_whitespace t1 = c # cs"
      by (subst (asm) parse_array.simps) (auto split: list.splits)
    have cs: "length cs < length t1" using dropWhile_Cons_length [OF dw] .
    from b so dw have "s1 = cs \<or> (length (dropWhile is_whitespace cs) < length s
        \<and> parse_array n (dropWhile is_whitespace cs) (acc @ [v']) = Inr (v, s1))"
      by (subst (asm) parse_array.simps) (auto split: if_splits)
    then show ?thesis
    proof
      assume "s1 = cs"
      with cs t1 show ?thesis by simp
    next
      assume r: "length (dropWhile is_whitespace cs) < length s
        \<and> parse_array n (dropWhile is_whitespace cs) (acc @ [v']) = Inr (v, s1)"
      then have "length s1 < length (dropWhile is_whitespace cs)" by (auto intro: IHa)
      with r show ?thesis by simp
    qed
  qed
  have C: "length s1 < length s" if c: "parse_object n s acc = Inr (v, s1)" for n v s1 acc
  proof -
    from c obtain cs where s: "s = 34 # cs"
      by (subst (asm) parse_object.simps) (auto split: list.splits if_splits)
    from c s obtain key t1 where ss: "scanstring n (n - length cs) cs = Inr (key, t1)"
      by (subst (asm) parse_object.simps) (auto split: sum.splits)
    from scanstring_shorter [OF ss] have t1: "length t1 < length cs" .
    from c s ss obtain cs2 where dw: "dropWhile is_whitespace t1 = 58 # cs2"
      by (subst (asm) parse_object.simps) (auto split: list.splits if_splits)
    have cs2: "length cs2 < length t1" using dropWhile_Cons_length [OF dw] .
    from c s ss dw obtain v' t4 where so: "scan_once n (dropWhile is_whitespace cs2) = Inr (v', t4)"
      by (subst (asm) parse_object.simps) (auto split: sum.splits)
    have "length (dropWhile is_whitespace cs2) \<le> length cs2" by (rule length_dropWhile_le)
    with cs2 t1 s have sh: "length (dropWhile is_whitespace cs2) < length s" by simp
    from IHs [OF so sh] sh have t4: "length t4 < length s" by simp
    from c s ss dw so obtain c5 cs5 where dw5: "dropWhile is_whitespace t4 = c5 # cs5"
      by (subst (asm) parse_object.simps) (auto split: list.splits)
    have cs5: "length cs5 < length t4" using dropWhile_Cons_length [OF dw5] .
    from c s ss dw so dw5 have "s1 = cs5 \<or> (length (dropWhile is_whitespace cs5) < length s
        \<and> parse_object n (dropWhile is_whitespace cs5) (dict_set acc key v') = Inr (v, s1))"
      by (subst (asm) parse_object.simps) (auto split: if_splits)
    then show ?thesis
    proof
      assume "s1 = cs5"
      with cs5 t4 show ?thesis by simp
    next
      assume r: "length (dropWhile is_whitespace cs5) < length s
        \<and> parse_object n (dropWhile is_whitespace cs5) (dict_set acc key v') = Inr (v, s1)"
      then have "length s1 < length (dropWhile is_whitespace cs5)" by (auto intro: IHo)
      with r show ?thesis by simp
    qed
  qed
  from A B C show ?case by blast
qed

text \<open>
  Hence the test that guards the next round of either loop never fails: the value just
  read started at the rest \<open>s\<close> (in an array) or behind the key (in an object).
\<close>

lemma loop_guard:
  assumes "scan_once n t = Inr (v, s1)" and "length t \<le> length s"
    and "dropWhile is_whitespace s1 = c # cs"
  shows "length (dropWhile is_whitespace cs) < length s"
proof -
  from assms(1) have "length s1 < length t" using scan_once_consumes by blast
  moreover from assms(3) have "length cs < length s1" by (rule dropWhile_Cons_length)
  moreover have "length (dropWhile is_whitespace cs) \<le> length cs" by (rule length_dropWhile_le)
  ultimately show ?thesis using assms(2) by simp
qed

text \<open>
  \<^verbatim>\<open>JSONDecodeError(msg, doc, pos)\<close> computes the line and the column of \<open>pos\<close>.
  \<^verbatim>\<open>json.loads\<close> refuses a document that starts with a byte order mark, skips white
  space, reads one value, skips white space again and refuses anything left over.
\<close>

definition json_error :: "pystr \<Rightarrow> pystr \<Rightarrow> nat \<Rightarrow> exn" where
  "json_error doc msg pos =
     JSONDecodeError msg
       (length (filter (\<lambda>c. c = 10) (take pos doc)) + 1)
       (length (takeWhile (\<lambda>c. c \<noteq> 10) (rev (take pos doc))) + 1)
       pos"

definition json_loads :: "pystr \<Rightarrow> exn + pyval" where
  "json_loads doc =
     (if doc \<noteq> [] \<and> hd doc = 65279 then
        Inl (json_error doc (ascii ''Unexpected UTF-8 BOM (decode using utf-8-sig)'') 0)
      else
        case scan_once (length doc) (dropWhile is_whitespace doc) of
          Inl (StopIteration pos) \<Rightarrow> Inl (json_error doc (ascii ''Expecting value'') pos)
        | Inl (Errmsg msg pos) \<Rightarrow> Inl (json_error doc msg pos)
        | Inl (DigitLimit k) \<Rightarrow> Inl (ValueError (digit_limit_message k))
        | Inr (v, s1) \<Rightarrow>
            (case dropWhile is_whitespace s1 of
               [] \<Rightarrow> Inr v
             | c # cs \<Rightarrow> Inl (json_error doc (ascii ''Extra data'') (length doc - length (c # cs)))))"

subsection \<open>\<^verbatim>\<open>str\<close>, \<^verbatim>\<open>repr\<close> and truth values\<close>

text \<open>
  An f-string field \<^verbatim>\<open>{v}\<close> is \<^verbatim>\<open>str(v)\<close>. What the interpreter and the machine
  it runs on decide is a parameter of the model, collected in the record \<open>runtime\<close>:
  the \<^verbatim>\<open>repr\<close> of the float read from a literal, whether that float is non-zero, the
  table of printable characters that \<^verbatim>\<open>repr\<close> of a string consults for code points
  above 126, whether a \<^verbatim>\<open>bytes\<close> object of a given size can be allocated, and the
  error handler of standard output (\<^verbatim>\<open>strict\<close>, or \<^verbatim>\<open>surrogateescape\<close> when the
  interpreter runs in the C locale). A runtime is the same for all requests of a run.
  Every theorem below that is stated for \<open>rt\<close> holds for every runtime.
\<close>

datatype error_handler = Strict | SurrogateEscape

record runtime =
  float_repr :: "pystr \<Rightarrow> pystr"
  float_bool :: "pystr \<Rightarrow> bool"
  isprintable :: "nat \<Rightarrow> bool"
  can_allocate :: "nat \<Rightarrow> bool"
  stdout_errors :: error_handler

text \<open>Two, four and eight hexadecimal digits, as in \<^verbatim>\<open>\xhh\<close>, \<^verbatim>\<open>\uhhhh\<close> and \<^verbatim>\<open>\Uhhhhhhhh\<close>.\<close>

definition hex2 :: "nat \<Rightarrow> pystr" where
  "hex2 c = [hex_digit (c div 16 mod 16), hex_digit (c mod 16)]"

definition hex4 :: "nat \<Rightarrow> pystr" where
  "hex4 c = hex2 (c div 256) @ hex2 c"

definition hex8 :: "nat \<Rightarrow> pystr" where
  "hex8 c = hex4 (c div 65536) @ hex4 c"

definition repr_char :: "runtime \<Rightarrow> nat \<Rightarrow> nat \<Rightarrow> pystr" where
  "repr_char rt quote c =
     (if c = quote \<or> c = 92 then [92, c]
      else if c = 9 then [92, 116]
      else if c = 10 then [92, 110]
      else if c = 13 then [92, 114]
      else if c < 32 \<or> c = 127 then [92, 120] @ hex2 c
      else if c < 127 then [c]
      else if isprintable rt c then [c]
      else if c \<le> 255 then [92, 120] @ hex2 c
      else if c \<le> 65535 then [92, 117] @ hex4 c
      else [92, 85] @ hex8 c)"

definition repr_str :: "runtime \<Rightarrow> pystr \<Rightarrow> pystr" where
  "repr_str rt s =
     (let quote = (if 39 \<in> set s \<and> 34 \<notin> set s then 34 else 39)
      in [quote] @ concat (map (repr_char rt quote) s) @ [quote])"

fun join :: "pystr \<Rightarrow> pystr list \<Rightarrow> pystr" where
  "join sep [] = []"
| "join sep [x] = x"
| "join sep (x # y # xs) = x @ sep @ join sep (y # xs)"

fun py_repr :: "runtime \<Rightarrow> pyval \<Rightarrow> pystr" where
  "py_repr rt PNone = ascii ''None''"
| "py_repr rt (PBool b) = (if b then ascii ''True'' else ascii ''False'')"
| "py_repr rt (PInt i) = str_int i"
| "py_repr rt (PFloat lit) = float_repr rt lit"
| "py_repr rt (PStr s) = repr_str rt s"
| "py_repr rt (PList xs) = [91] @ join (ascii '', '') (map (py_repr rt) xs) @ [93]"
| "py_repr rt (PDict d) =
     [123] @ join (ascii '', '') (map (\<lambda>kv. repr_str rt (fst kv) @ ascii '': '' @ py_repr rt (snd kv)) d) @ [125]"

definition py_str :: "runtime \<Rightarrow> pyval \<Rightarrow> pystr" where
  "py_str rt v = (case v of PStr s \<Rightarrow> s | _ \<Rightarrow> py_repr rt v)"

definition py_bool :: "runtime \<Rightarrow> pyval \<Rightarrow> bool" where
  "py_bool rt v =
     (case v of
        PNone \<Rightarrow> False
      | PBool b \<Rightarrow> b
      | PInt i \<Rightarrow> i \<noteq> 0
      | PFloat lit \<Rightarrow> float_bool rt lit
      | PStr s \<Rightarrow> s \<noteq> []
      | PList xs \<Rightarrow> xs \<noteq> []
      | PDict d \<Rightarrow> d \<noteq> [])"

text \<open>
  \<^verbatim>\<open>str(e)\<close> of an exception. A \<^verbatim>\<open>UnicodeEncodeError\<close> for a single character
  shows it as \<^verbatim>\<open>\xhh\<close>, \<^verbatim>\<open>\uhhhh\<close> or \<^verbatim>\<open>\Uhhhhhhhh\<close>.
\<close>

definition exn_str :: "runtime \<Rightarrow> exn \<Rightarrow> pystr" where
  "exn_str rt e =
     (case e of
        TypeError m \<Rightarrow> m
      | ValueError m \<Rightarrow> m
      | ValueError_literal s \<Rightarrow>
          ascii ''invalid literal for int() with base 10: '' @ repr_str rt (map of_char s)
      | AttributeError m \<Rightarrow> m
      | OverflowError m \<Rightarrow> m
      | OSError m \<Rightarrow> m
      | KeyError k \<Rightarrow> repr_str rt k
      | MemoryError \<Rightarrow> []
      | UnicodeDecodeError obj start end reason \<Rightarrow>
          (if start < length obj \<and> end = start + 1 then
             [39] @ ascii ''utf-8'' @ [39] @ ascii '' codec can'' @ [39] @ ascii ''t decode byte 0x''
             @ hex2 (of_char (obj ! start)) @ ascii '' in position '' @ str_nat start
             @ ascii '': '' @ reason
           else
             [39] @ ascii ''utf-8'' @ [39] @ ascii '' codec can'' @ [39] @ ascii ''t decode bytes in position ''
             @ str_nat start @ ascii ''-'' @ str_nat (end - 1) @ ascii '': '' @ reason)
      | UnicodeEncodeError obj start end reason \<Rightarrow>
          (if start < length obj \<and> end = start + 1 then
             [39] @ ascii ''utf-8'' @ [39] @ ascii '' codec can'' @ [39] @ ascii ''t encode character ''
             @ [39, 92]
             @ (if obj ! start \<le> 255 then [120] @ hex2 (obj ! start)
                else if obj ! start \<le> 65535 then [117] @ hex4 (obj ! start)
                else [85] @ hex8 (obj ! start))
             @ [39] @ ascii '' in position '' @ str_nat start @ ascii '': '' @ reason
           else
             [39] @ ascii ''utf-8'' @ [39] @ ascii '' codec can'' @ [39] @ ascii ''t encode characters in position ''
             @ str_nat start @ ascii ''-'' @ str_nat (end - 1) @ ascii '': '' @ reason)
      | JSONDecodeError msg lineno colno pos \<Rightarrow>
          msg @ ascii '': line '' @ str_nat lineno @ ascii '' column '' @ str_nat colno
          @ ascii '' (char '' @ str_nat pos @ ascii '')'')"

subsection \<open>Attribute access on the decoded value\<close>

definition type_name :: "pyval \<Rightarrow> string" where
  "type_name v =
     (case v of
        PNone \<Rightarrow> ''NoneType''
      | PBool b \<Rightarrow> ''bool''
      | PInt i \<Rightarrow> ''int''
      | PFloat lit \<Rightarrow> ''float''
      | PStr s \<Rightarrow> ''str''
      | PList xs \<Rightarrow> ''list''
      | PDict d \<Rightarrow> ''dict'')"

definition no_attribute :: "pyval \<Rightarrow> string \<Rightarrow> exn" where
  "no_attribute v name =
     AttributeError ([39] @ ascii (type_name v) @ [39] @ ascii '' object has no attribute ''
                     @ [39] @ ascii name @ [39])"

text \<open>
  \<^verbatim>\<open>data.get(key, default)\<close>, with \<^verbatim>\<open>None\<close> as the default of the default,
  \<^verbatim>\<open>data[key]\<close> on a \<^verbatim>\<open>dict\<close>, and \<^verbatim>\<open>v.items()\<close>. Only a \<^verbatim>\<open>dict\<close> has the
  attributes \<^verbatim>\<open>get\<close> and \<^verbatim>\<open>items\<close>.
\<close>

definition dict_get :: "(pystr \<times> pyval) list \<Rightarrow> string \<Rightarrow> pyval \<Rightarrow> pyval" where
  "dict_get d key dflt = (case dict_find d (ascii key) of None \<Rightarrow> dflt | Some v \<Rightarrow> v)"

definition py_get :: "pyval \<Rightarrow> string \<Rightarrow> pyval \<Rightarrow> exn + pyval" where
  "py_get data key dflt =
     (case data of
        PDict d \<Rightarrow> Inr (dict_get d key dflt)
      | _ \<Rightarrow> Inl (no_attribute data ''get''))"

definition py_getitem :: "(pystr \<times> pyval) list \<Rightarrow> string \<Rightarrow> exn + pyval" where
  "py_getitem d key =
     (case dict_find d (ascii key) of None \<Rightarrow> Inl (KeyError (ascii key)) | Some v \<Rightarrow> Inr v)"

definition py_items :: "pyval \<Rightarrow> exn + (pystr \<times> pyval) list" where
  "py_items v = (case v of PDict d \<Rightarrow> Inr d | _ \<Rightarrow> Inl (no_attribute v ''items''))"

subsection \<open>\<^verbatim>\<open>print\<close>\<close>

text \<open>
  Standard output is a text stream that encodes as UTF-8, the encoding in which the
  Chinese text and the emoji of this program can be written, and that accepts every write.
  It is modelled as the list of the strings written by \<^verbatim>\<open>print\<close>, one entry for each
  call; \<^verbatim>\<open>print\<close> ends each of them with a line feed.

  \<^verbatim>\<open>print(s)\<close> passes \<open>s\<close> to the stream in one piece, and the stream encodes it before
  it writes anything. UTF-8 has no encoding for a surrogate code point (U+D800 to
  U+DFFF), so a string that holds one cannot be written: the encoder raises
  \<^verbatim>\<open>UnicodeEncodeError\<close> for the run of surrogates it has met, and nothing of \<open>s\<close>
  reaches the stream. Under the error handler \<^verbatim>\<open>surrogateescape\<close> the surrogates
  U+DC80 to U+DCFF stand for single bytes and are written as such; a run of surrogates
  is then an error from its first member that is no such stand-in.
  \<open>encode_error h i s\<close> is the range of that error for a text \<open>s\<close> that starts at index
  \<open>i\<close>, or \<open>None\<close> if \<open>s\<close> can be encoded. A text is \<open>plain\<close> if it holds no surrogate.
\<close>

definition surrogate :: "nat \<Rightarrow> bool" where
  "surrogate c \<longleftrightarrow> 55296 \<le> c \<and> c \<le> 57343"

definition escaped_byte :: "nat \<Rightarrow> bool" where
  "escaped_byte c \<longleftrightarrow> 56448 \<le> c \<and> c \<le> 56575"

fun encode_error :: "error_handler \<Rightarrow> nat \<Rightarrow> pystr \<Rightarrow> (nat \<times> nat) option" where
  "encode_error h i [] = None"
| "encode_error h i (c # cs) =
     (if surrogate c \<and> \<not> (h = SurrogateEscape \<and> escaped_byte c)
      then Some (i, i + length (takeWhile surrogate (c # cs)))
      else encode_error h (Suc i) cs)"

definition encodable :: "runtime \<Rightarrow> pystr \<Rightarrow> bool" where
  "encodable rt s \<longleftrightarrow> encode_error (stdout_errors rt) 0 s = None"

definition plain :: "pystr \<Rightarrow> bool" where
  "plain s = list_all (\<lambda>c. \<not> surrogate c) s"

text \<open>An error of the JSON scanner is plain if its message, if it has one, is plain.\<close>

fun error_plain :: "scan_error \<Rightarrow> bool" where
  "error_plain (StopIteration pos) = True"
| "error_plain (Errmsg msg pos) = plain msg"
| "error_plain (DigitLimit k) = True"

text \<open>
  A statement takes standard output as it is and returns it as the statement leaves it,
  together with the exception the statement raises, if it raises one. \<open>run_block\<close> runs
  statements in order and stops at the first that raises.
\<close>

type_synonym console = "pystr list"

type_synonym stmt = "console \<Rightarrow> console \<times> exn option"

definition py_print :: "runtime \<Rightarrow> pystr \<Rightarrow> stmt" where
  "py_print rt s out =
     (case encode_error (stdout_errors rt) 0 s of
        None \<Rightarrow> (out @ [s], None)
      | Some (start, end) \<Rightarrow>
          (out, Some (UnicodeEncodeError s start end (ascii ''surrogates not allowed''))))"

fun run_block :: "stmt list \<Rightarrow> stmt" where
  "run_block [] out = (out, None)"
| "run_block (stmt # stmts) out =
     (case stmt out of
        (out1, None) \<Rightarrow> run_block stmts out1
      | (out1, Some e) \<Rightarrow> (out1, Some e))"

text \<open>
  A statement is \<open>orderly\<close> if the lines it appends to standard output, and whether it
  raises, do not depend on what standard output holds already, and if the message of the
  exception it raises is plain.
\<close>

definition orderly :: "runtime \<Rightarrow> stmt \<Rightarrow> bool" where
  "orderly rt f \<longleftrightarrow>
     (\<exists>ls r. (\<forall>out. f out = (out @ ls, r)) \<and> (\<forall>e. r = Some e \<longrightarrow> plain (exn_str rt e)))"

section \<open>The request handler\<close>

subsection \<open>Requests and responses\<close>

text \<open>
  A request is what \<^verbatim>\<open>do_POST\<close> reads of it: the parsed header lines, in the order
  they were sent, and \<^verbatim>\<open>self.rfile\<close>, the bytes that the client sends after the
  header block before it finishes sending.

  A response is what the handler passes to \<^verbatim>\<open>send_response\<close>, \<^verbatim>\<open>send_header\<close>
  and \<^verbatim>\<open>wfile.write\<close>. The \<^verbatim>\<open>Server\<close> and \<^verbatim>\<open>Date\<close> headers that
  \<^verbatim>\<open>send_response\<close> adds on its own are left out.
\<close>

record request =
  headers :: "(string \<times> string) list"
  rfile :: bytes

record response =
  status :: nat
  response_headers :: "(string \<times> string) list"
  body :: bytes

definition lower_char :: "char \<Rightarrow> char" where
  "lower_char c =
     (let k = (of_char c :: nat)
      in if (65 \<le> k \<and> k \<le> 90) \<or> (192 \<le> k \<and> k \<le> 222 \<and> k \<noteq> 215) then char_of (k + 32) else c)"

definition lower :: "string \<Rightarrow> string" where
  "lower s = map lower_char s"

text \<open>\<^verbatim>\<open>self.headers[name]\<close>: the first header of that name, compared without case, or \<^verbatim>\<open>None\<close>.\<close>

fun header_get :: "(string \<times> string) list \<Rightarrow> string \<Rightarrow> string option" where
  "header_get [] name = None"
| "header_get ((k, v) # hs) name = (if lower k = lower name then Some v else header_get hs name)"

text \<open>
  \<^verbatim>\<open>self.rfile\<close> is a buffered reader (\<^verbatim>\<open>io.BufferedReader\<close>) on the connection, and the
  handler calls its \<^verbatim>\<open>read\<close> once. On a 64-bit interpreter:

  \<^item> the argument has to fit a signed 64-bit index, or the call raises \<^verbatim>\<open>OverflowError\<close>;
  \<^item> an argument below \<open>-1\<close> raises \<^verbatim>\<open>ValueError\<close>;
  \<^item> \<open>-1\<close> reads up to the end of the stream;
  \<^item> otherwise the reader allocates a \<^verbatim>\<open>bytes\<close> object of the size asked for before it
    reads. The object has a header of 33 bytes, and a size that does not fit the index
    together with the header raises \<^verbatim>\<open>OverflowError\<close>; an allocation that the machine
    cannot grant raises \<^verbatim>\<open>MemoryError\<close>;
  \<^item> then it returns the requested number of bytes, or all bytes up to the end of the
    stream if there are fewer.

  The size of this one allocation is chosen by the client. Every other allocation of the
  handler is in proportion to data already received, and running out of memory there is
  not modelled.
\<close>

definition ssize_max :: int where
  "ssize_max = 9223372036854775807"

definition bytes_header :: int where
  "bytes_header = 33"

definition rfile_read :: "runtime \<Rightarrow> bytes \<Rightarrow> int \<Rightarrow> exn + bytes" where
  "rfile_read rt stream sz =
     (if sz < - ssize_max - 1 \<or> ssize_max < sz then
        Inl (OverflowError (ascii ''cannot fit '' @ [39] @ ascii ''int'' @ [39]
                            @ ascii '' into an index-sized integer''))
      else if sz < - 1 then Inl (ValueError (ascii ''read length must be non-negative or -1''))
      else if sz = - 1 then Inr stream
      else if ssize_max - bytes_header < sz then
        Inl (OverflowError (ascii ''byte string is too large''))
      else if \<not> can_allocate rt (nat sz) then Inl MemoryError
      else Inr (take (nat sz) stream))"

subsection \<open>The text the handler prints\<close>

definition separator :: pystr where
  "separator = replicate 80 61"

definition text_received :: pystr where
  "text_received = [9989] @ ascii '' '' @ [25910, 21040] @ ascii ''Webhook'' @ [36890, 30693, 65281]"

definition label_alert_id :: pystr where
  "label_alert_id = [10, 21578, 35686] @ ascii ''ID: ''"

definition label_title :: pystr where
  "label_title = [26631, 39064] @ ascii '': ''"

definition label_message :: pystr where
  "label_message = [28040, 24687] @ ascii '': ''"

definition label_severity :: pystr where
  "label_severity = [20005, 37325, 31243, 24230] @ ascii '': ''"

definition label_alert_type :: pystr where
  "label_alert_type = [21578, 35686, 31867, 22411] @ ascii '': ''"

definition label_device_id :: pystr where
  "label_device_id = [35774, 22791] @ ascii ''ID: ''"

definition label_created_at :: pystr where
  "label_created_at = [21019, 24314, 26102, 38388] @ ascii '': ''"

definition label_timestamp :: pystr where
  "label_timestamp = [26102, 38388, 25139] @ ascii '': ''"

definition text_metadata :: pystr where
  "text_metadata = [10, 20803, 25968, 25454] @ ascii '':''"

definition label_parse_error :: pystr where
  "label_parse_error = [35299, 26512, 38169, 35823] @ ascii '': ''"

definition label_raw_data :: pystr where
  "label_raw_data = [21407, 22987, 25968, 25454] @ ascii '': ''"

definition receipt_block :: "pystr list" where
  "receipt_block = [10 # separator, text_received, separator]"

definition closing_line :: pystr where
  "closing_line = [10] @ separator @ [10]"

subsection \<open>\<^verbatim>\<open>WebhookHandler.do_POST\<close>\<close>

text \<open>
  A statement \<^verbatim>\<open>print(f"label{data.get(key)}")\<close> raises if \<^verbatim>\<open>data\<close> has no
  attribute \<^verbatim>\<open>get\<close>, and otherwise prints one line, which raises if the line cannot be
  encoded. \<open>print_fields\<close> is lines 20 to 27.
\<close>

definition print_field :: "runtime \<Rightarrow> pystr \<Rightarrow> pyval \<Rightarrow> string \<Rightarrow> pyval \<Rightarrow> stmt" where
  "print_field rt label data key dflt out =
     (case py_get data key dflt of
        Inl e \<Rightarrow> (out, Some e)
      | Inr v \<Rightarrow> py_print rt (label @ py_str rt v) out)"

definition print_fields :: "runtime \<Rightarrow> pyval \<Rightarrow> stmt" where
  "print_fields rt data =
     run_block
       [print_field rt label_alert_id data ''alert_id'' PNone,
        print_field rt label_title data ''title'' PNone,
        print_field rt label_message data ''message'' PNone,
        print_field rt label_severity data ''severity'' PNone,
        print_field rt label_alert_type data ''alert_type'' PNone,
        print_field rt label_device_id data ''device_id'' (PStr (ascii ''N/A'')),
        print_field rt label_created_at data ''created_at'' PNone,
        print_field rt label_timestamp data ''timestamp'' PNone]"

text \<open>
  The eight lines that these statements print when \<^verbatim>\<open>data\<close> is the \<^verbatim>\<open>dict\<close> \<open>d\<close> and
  each of them can be encoded.
\<close>

definition field_lines :: "runtime \<Rightarrow> (pystr \<times> pyval) list \<Rightarrow> pystr list" where
  "field_lines rt d =
     [label_alert_id @ py_str rt (dict_get d ''alert_id'' PNone),
      label_title @ py_str rt (dict_get d ''title'' PNone),
      label_message @ py_str rt (dict_get d ''message'' PNone),
      label_severity @ py_str rt (dict_get d ''severity'' PNone),
      label_alert_type @ py_str rt (dict_get d ''alert_type'' PNone),
      label_device_id @ py_str rt (dict_get d ''device_id'' (PStr (ascii ''N/A''))),
      label_created_at @ py_str rt (dict_get d ''created_at'' PNone),
      label_timestamp @ py_str rt (dict_get d ''timestamp'' PNone)]"

definition metadata_line :: "runtime \<Rightarrow> pystr \<times> pyval \<Rightarrow> pystr" where
  "metadata_line rt kv = ascii ''  '' @ fst kv @ ascii '': '' @ py_str rt (snd kv)"

text \<open>
  Lines 29 to 32: \<^verbatim>\<open>if data.get('metadata'):\<close> prints the heading and then iterates
  over \<^verbatim>\<open>data['metadata'].items()\<close> (\<open>print_items\<close>), which raises after the heading
  if the value is no \<^verbatim>\<open>dict\<close>; each round of the loop prints one line.
\<close>

definition print_items :: "runtime \<Rightarrow> (pystr \<times> pyval) list \<Rightarrow> stmt" where
  "print_items rt d out =
     (case py_getitem d ''metadata'' of
        Inl e \<Rightarrow> (out, Some e)
      | Inr m \<Rightarrow>
          (case py_items m of
             Inl e \<Rightarrow> (out, Some e)
           | Inr kvs \<Rightarrow> run_block (map (\<lambda>kv. py_print rt (metadata_line rt kv)) kvs) out))"

definition print_metadata :: "runtime \<Rightarrow> pyval \<Rightarrow> stmt" where
  "print_metadata rt data out =
     (case data of
        PDict d \<Rightarrow>
          if py_bool rt (dict_get d ''metadata'' PNone) then
            run_block [py_print rt text_metadata, print_items rt d] out
          else (out, None)
      | _ \<Rightarrow> (out, Some (no_attribute data ''get'')))"

text \<open>The body of the \<^verbatim>\<open>try\<close> statement, lines 19 to 34.\<close>

definition try_block :: "runtime \<Rightarrow> bytes \<Rightarrow> stmt" where
  "try_block rt post_data out =
     (case utf8_decode post_data of
        Inl e \<Rightarrow> (out, Some e)
      | Inr text \<Rightarrow>
          (case json_loads text of
             Inl e \<Rightarrow> (out, Some e)
           | Inr data \<Rightarrow>
               run_block [print_fields rt data, print_metadata rt data, py_print rt closing_line]
                 out))"

text \<open>
  The \<^verbatim>\<open>except\<close> clause, lines 36 to 38, for the exception \<open>e\<close>: it prints the exception
  and then decodes \<^verbatim>\<open>post_data\<close> a second time to print it. An exception raised here
  leaves the method.
\<close>

definition print_raw :: "runtime \<Rightarrow> bytes \<Rightarrow> stmt" where
  "print_raw rt post_data out =
     (case utf8_decode post_data of
        Inl e \<Rightarrow> (out, Some e)
      | Inr raw \<Rightarrow> py_print rt (label_raw_data @ raw) out)"

definition except_block :: "runtime \<Rightarrow> bytes \<Rightarrow> exn \<Rightarrow> stmt" where
  "except_block rt post_data e =
     run_block [py_print rt (label_parse_error @ exn_str rt e), print_raw rt post_data]"

text \<open>Lines 41 to 44. The header name is spelled \<^verbatim>\<open>Content-type\<close> in the source.\<close>

definition acknowledgment :: response where
  \<open>acknowledgment =
     \<lparr>status = 200,
      response_headers = [(''Content-type'', ''application/json'')],
      body = ''{"status": "received"}''\<rparr>\<close>

text \<open>
  \<open>read_body\<close> is lines 11 and 12. \<open>do_POST\<close> takes standard output as the requests
  before have left it, and returns it as this request leaves it, together with either
  the response sent or the exception that leaves the method, in which case nothing has
  been sent. Standard output is the only object that the method touches and that
  outlives the request: the handler object, with \<^verbatim>\<open>self.headers\<close>, \<^verbatim>\<open>self.rfile\<close>
  and \<^verbatim>\<open>self.wfile\<close>, is made anew by the server for each request, and the method
  assigns no attribute of the class or the server and no global.
\<close>

definition read_body :: "runtime \<Rightarrow> request \<Rightarrow> exn + bytes" where
  "read_body rt req =
     (case py_int_opt (header_get (headers req) ''Content-Length'') of
        Inl e \<Rightarrow> Inl e
      | Inr content_length \<Rightarrow> rfile_read rt (rfile req) content_length)"

definition do_POST :: "runtime \<Rightarrow> request \<Rightarrow> console \<Rightarrow> console \<times> (exn + response)" where
  "do_POST rt req out =
     (case read_body rt req of
        Inl e \<Rightarrow> (out, Inl e)
      | Inr post_data \<Rightarrow>
          (case run_block (map (py_print rt) receipt_block) out of
             (out1, Some e) \<Rightarrow> (out1, Inl e)
           | (out1, None) \<Rightarrow>
               (case try_block rt post_data out1 of
                  (out2, None) \<Rightarrow> (out2, Inr acknowledgment)
                | (out2, Some e) \<Rightarrow>
                    (case except_block rt post_data e out2 of
                       (out3, Some e2) \<Rightarrow> (out3, Inl e2)
                     | (out3, None) \<Rightarrow> (out3, Inr acknowledgment)))))"

section \<open>The server\<close>

text \<open>
  \<^verbatim>\<open>serve_forever\<close> handles the requests one after the other, each with a new handler
  object. An exception that leaves \<^verbatim>\<open>do_POST\<close> is reported on standard error by the
  server, the connection is closed without a response, and the server goes on. The
  state that passes from one request to the next is standard output.
\<close>

fun serve_forever :: "runtime \<Rightarrow> console \<Rightarrow> request list \<Rightarrow> console \<times> (exn + response) list" where
  "serve_forever rt out [] = (out, [])"
| "serve_forever rt out (req # reqs) =
     (case do_POST rt req out of
        (out1, reply) \<Rightarrow>
          (case serve_forever rt out1 reqs of
             (out2, replies) \<Rightarrow> (out2, reply # replies)))"

text \<open>
  The operating system decides whether a port can be bound (if not, \<open>bind_failure\<close>
  gives the text of the \<^verbatim>\<open>OSError\<close>, for a port in use or a port the user may not
  bind), and which port stands for port 0.
  \<^verbatim>\<open>HTTPServer(('', port), WebhookHandler)\<close> returns the port it is bound to.
\<close>

record os_env =
  bind_failure :: "int \<Rightarrow> pystr option"
  ephemeral_port :: int

definition HTTPServer :: "os_env \<Rightarrow> int \<Rightarrow> exn + int" where
  "HTTPServer os port =
     (if port < 0 \<or> 65535 < port then Inl (OverflowError (ascii ''bind(): port must be 0-65535.''))
      else case bind_failure os port of
          Some m \<Rightarrow> Inl (OSError m)
        | None \<Rightarrow> Inr (if port = 0 then ephemeral_port os else port))"

definition text_started :: pystr where
  "text_started = [128640] @ ascii '' Webhook'' @ [25509, 25910, 22120, 21551, 21160, 22312, 31471, 21475] @ ascii '' ''"

definition text_url :: pystr where
  "text_url = [128225] @ ascii '' Webhook URL: http://localhost:''"

definition text_waiting :: pystr where
  "text_waiting = [9203] @ ascii '' '' @ [31561, 24453, 21578, 35686, 36890, 30693] @ ascii ''...'' @ [10]"

definition text_stopped :: pystr where
  "text_stopped = [10, 10, 128075] @ ascii '' '' @ [25509, 25910, 22120, 24050, 20572, 27490]"

definition banner :: "int \<Rightarrow> pystr list" where
  "banner port =
     [text_started @ str_int port,
      text_url @ str_int port @ ascii ''/webhook'',
      text_waiting]"

text \<open>
  A run of the program: the requests \<open>reqs\<close> arrive, then the user interrupts it.
  \<open>stdout\<close> is standard output at the end, \<open>bound\<close> the port the listener is bound to,
  \<open>replies\<close> the outcome of each request and \<open>uncaught\<close> the exception that ends the
  program, if one does. \<^verbatim>\<open>run_server\<close> prints the three lines of the banner and
  leaves through the \<^verbatim>\<open>KeyboardInterrupt\<close>, which the script body catches.
\<close>

record run =
  stdout :: console
  bound :: "int option"
  replies :: "(exn + response) list"
  uncaught :: "exn option"

definition run_server :: "runtime \<Rightarrow> os_env \<Rightarrow> int \<Rightarrow> request list \<Rightarrow> run" where
  "run_server rt os port reqs =
     (case HTTPServer os port of
        Inl e \<Rightarrow> \<lparr>stdout = [], bound = None, replies = [], uncaught = Some e\<rparr>
      | Inr p \<Rightarrow>
          (case run_block (map (py_print rt) (banner port)) [] of
             (out, Some e) \<Rightarrow> \<lparr>stdout = out, bound = Some p, replies = [], uncaught = Some e\<rparr>
           | (out, None) \<Rightarrow>
               (case serve_forever rt out reqs of
                  (out1, rs) \<Rightarrow> \<lparr>stdout = out1, bound = Some p, replies = rs, uncaught = None\<rparr>)))"

definition main :: "runtime \<Rightarrow> os_env \<Rightarrow> string list \<Rightarrow> request list \<Rightarrow> run" where
  "main rt os argv reqs =
     (case (if length argv > 1 then py_int (argv ! 1) else Inr 8888) of
        Inl e \<Rightarrow> \<lparr>stdout = [], bound = None, replies = [], uncaught = Some e\<rparr>
      | Inr port \<Rightarrow>
          (let r = run_server rt os port reqs
           in if uncaught r = None then
                (case py_print rt text_stopped (stdout r) of
                   (out, e) \<Rightarrow> r\<lparr>stdout := out, uncaught := e\<rparr>)
              else r))"

subsection \<open>Sample inputs\<close>

text \<open>
  The evaluations on concrete inputs run with \<open>sample_runtime\<close>: standard output has the
  error handler \<^verbatim>\<open>strict\<close>, and a \<^verbatim>\<open>bytes\<close> object of up to one mebibyte can be
  allocated. None of those inputs holds a float, and none makes the handler print a list
  or a \<^verbatim>\<open>dict\<close>, so that the first three fields are not consulted. In \<open>any_port_free\<close>
  every port can be bound. \<open>post_request\<close> is a request whose only header is
  \<^verbatim>\<open>Content-Length\<close>.
\<close>

definition sample_runtime :: runtime where
  "sample_runtime =
     \<lparr>float_repr = (\<lambda>lit. lit), float_bool = (\<lambda>lit. True), isprintable = (\<lambda>c. False),
      can_allocate = (\<lambda>n. n \<le> 1048576), stdout_errors = Strict\<rparr>"

definition post_request :: "string \<Rightarrow> bytes \<Rightarrow> request" where
  "post_request content_length data =
     \<lparr>headers = [(''Content-Length'', content_length)], rfile = data\<rparr>"

definition any_port_free :: os_env where
  "any_port_free = \<lparr>bind_failure = (\<lambda>port. None), ephemeral_port = 49152\<rparr>"

text \<open>
  Three bodies in which a string is the escape \<^verbatim>\<open>\ud800\<close>, a surrogate without its
  partner: \<^verbatim>\<open>{"title": "\ud800"}\<close>, \<^verbatim>\<open>{"metadata": {"zone": "\ud800"}}\<close> and
  \<^verbatim>\<open>{"title": "\ud800", "device_id": null}\<close>. \<open>CHR 0x5C\<close> is the backslash. The
  bodies are ASCII, hence valid UTF-8, and they are valid JSON.
\<close>

definition body_surrogate_title :: bytes where
  \<open>body_surrogate_title = ''{"title": "'' @ [CHR 0x5C] @ ''ud800"}''\<close>

definition body_surrogate_zone :: bytes where
  \<open>body_surrogate_zone = ''{"metadata": {"zone": "'' @ [CHR 0x5C] @ ''ud800"}}''\<close>

definition body_surrogate_device :: bytes where
  \<open>body_surrogate_device = ''{"title": "'' @ [CHR 0x5C] @ ''ud800", "device_id": null}''\<close>

section \<open>Properties of the handler\<close>

subsection \<open>Text that can be printed\<close>

text \<open>
  A plain text can be encoded under either error handler, so printing it appends it to
  standard output. The texts of the program, decimal and hexadecimal numbers, the result
  of a successful \<^verbatim>\<open>decode\<close> and the message of every exception that the \<^verbatim>\<open>try\<close> block
  can raise are plain.
\<close>

lemma plain_Nil: "plain []"
  by (simp add: plain_def)

lemma plain_Cons: "plain (c # s) \<longleftrightarrow> \<not> surrogate c \<and> plain s"
  by (simp add: plain_def)

lemma plain_append: "plain (s @ t) \<longleftrightarrow> plain s \<and> plain t"
  by (simp add: plain_def)

lemma plain_ascii: "plain (ascii s)"
proof -
  have "\<not> surrogate (of_char c)" for c :: char
    unfolding surrogate_def using nat_of_char_less_256 [of c] by linarith
  then show ?thesis
    by (simp add: plain_def ascii_def list_all_iff)
qed

lemma plain_str_nat: "plain (str_nat n)"
proof (induction n rule: str_nat.induct)
  case (1 n)
  show ?case
  proof (cases "n < 10")
    case True
    then show ?thesis
      by (subst str_nat.simps) (simp add: plain_Cons plain_Nil surrogate_def)
  next
    case False
    have "n mod 10 < 10" by simp
    then have "\<not> surrogate (48 + n mod 10)"
      by (simp add: surrogate_def)
    with False "1.IH" show ?thesis
      by (subst str_nat.simps) (simp add: plain_append plain_Cons plain_Nil)
  qed
qed

lemma plain_str_int: "plain (str_int i)"
  by (simp add: str_int_def plain_Cons plain_str_nat surrogate_def)

lemma plain_hex_digit: "d < 16 \<Longrightarrow> \<not> surrogate (hex_digit d)"
  by (simp add: hex_digit_def surrogate_def)

lemma plain_hex2: "plain (hex2 c)"
  by (simp add: hex2_def plain_Cons plain_Nil plain_hex_digit)

lemma plain_hex4: "plain (hex4 c)"
  by (simp add: hex4_def plain_append plain_hex2)

lemma plain_hex8: "plain (hex8 c)"
  by (simp add: hex8_def plain_append plain_hex4)

lemmas plain_eval =
  plain_Nil plain_Cons plain_append plain_ascii plain_str_nat plain_str_int
  plain_hex2 plain_hex4 plain_hex8

lemma plain_separator: "plain separator"
  by (simp add: separator_def plain_def list_all_iff surrogate_def)

lemma plain_texts:
  "plain text_received" "plain label_alert_id" "plain label_title" "plain label_message"
  "plain label_severity" "plain label_alert_type" "plain label_device_id"
  "plain label_created_at" "plain label_timestamp" "plain text_metadata"
  "plain label_parse_error" "plain label_raw_data" "plain closing_line"
  "plain text_started" "plain text_url" "plain text_waiting" "plain text_stopped"
  by (simp_all add: plain_eval plain_separator surrogate_def
        text_received_def label_alert_id_def label_title_def label_message_def
        label_severity_def label_alert_type_def label_device_id_def label_created_at_def
        label_timestamp_def text_metadata_def label_parse_error_def label_raw_data_def
        closing_line_def text_started_def text_url_def text_waiting_def text_stopped_def)

lemma encode_error_plain: "plain s \<Longrightarrow> encode_error h i s = None"
  by (induction s arbitrary: i) (simp_all add: plain_Cons)

lemma plain_encodable: "plain s \<Longrightarrow> encodable rt s"
  by (simp add: encodable_def encode_error_plain)

lemma py_print_encodable: "encodable rt s \<Longrightarrow> py_print rt s out = (out @ [s], None)"
  by (simp add: py_print_def encodable_def)

lemma py_print_plain: "plain s \<Longrightarrow> py_print rt s out = (out @ [s], None)"
  by (simp add: py_print_encodable plain_encodable)

lemma run_prints:
  "list_all (encodable rt) ls \<Longrightarrow> run_block (map (py_print rt) ls) out = (out @ ls, None)"
  by (induction ls arbitrary: out) (simp_all add: py_print_encodable)

lemma receipt_printed: "run_block (map (py_print rt) receipt_block) out = (out @ receipt_block, None)"
  by (rule run_prints)
     (simp add: receipt_block_def plain_encodable plain_Cons plain_separator plain_texts
        surrogate_def)

lemma banner_printed: "run_block (map (py_print rt) (banner port)) out = (out @ banner port, None)"
  by (rule run_prints)
     (simp add: banner_def plain_encodable plain_append plain_str_int plain_ascii plain_texts)

text \<open>The result of a successful \<^verbatim>\<open>decode\<close> is plain, and so is the message of a failed one.\<close>

lemma surrogate_three:
  fixes a b c :: nat
  assumes "224 \<le> a" "a < 240" "128 \<le> b" "b < 192" "128 \<le> c" "c < 192"
    and "\<not> (if b < 160 then a = 224 else a = 237)"
  shows "\<not> surrogate ((a - 224) * 4096 + (b - 128) * 64 + (c - 128))"
proof -
  consider "a \<le> 236" | "a = 237" "b < 160" | "238 \<le> a"
    using assms(7) by (cases "b < 160") (simp_all, linarith+)
  then show ?thesis
  proof cases
    case 1
    with assms show ?thesis unfolding surrogate_def by linarith
  next
    case 2
    with assms show ?thesis unfolding surrogate_def by linarith
  next
    case 3
    with assms show ?thesis unfolding surrogate_def by linarith
  qed
qed

lemma utf8_one_plain:
  assumes "utf8_one bs = Inr (c, rest)"
  shows "\<not> surrogate c"
proof (cases bs)
  case Nil
  with assms show ?thesis by simp
next
  case (Cons ch s)
  consider (one) "ch < 128" | (two) "128 \<le> ch" "ch < 224" | (three) "224 \<le> ch" "ch < 240"
    | (four) "240 \<le> ch"
    by linarith
  then show ?thesis
  proof cases
    case one
    with assms Cons show ?thesis by (auto simp: surrogate_def)
  next
    case two
    with assms Cons show ?thesis
      by (auto simp: surrogate_def is_continuation_def split: if_splits list.splits)
  next
    case three
    with assms Cons obtain ch2 ch3 where "is_continuation ch2" "is_continuation ch3"
      "\<not> (if ch2 < 160 then ch = 224 else ch = 237)"
      "c = (ch - 224) * 4096 + (ch2 - 128) * 64 + (ch3 - 128)"
      by (auto split: if_splits list.splits)
    with three show ?thesis
      using surrogate_three [of ch ch2 ch3] by (simp add: is_continuation_def)
  next
    case four
    with assms Cons show ?thesis
      by (auto simp: surrogate_def is_continuation_def split: if_splits list.splits)
  qed
qed

lemma utf8_from_plain: "utf8_from obj pos bs = Inr str \<Longrightarrow> plain str"
proof (induction obj pos bs arbitrary: str rule: utf8_from.induct)
  case (1 obj pos bs)
  show ?case
  proof (cases "bs = []")
    case True
    with "1.prems" show ?thesis
      by (subst (asm) utf8_from.simps) (simp add: plain_Nil)
  next
    case False
    with "1.prems" obtain c rest cs where one: "utf8_one bs = Inr (c, rest)"
      and rec: "utf8_from obj (pos + (length bs - length rest)) rest = Inr cs"
      and str: "str = c # cs"
      by (subst (asm) utf8_from.simps) (auto split: sum.splits)
    from "1.IH" [OF False one refl rec] utf8_one_plain [OF one] str
    show ?thesis
      by (simp add: plain_Cons)
  qed
qed

lemma utf8_decode_plain: "utf8_decode b = Inr text \<Longrightarrow> plain text"
  unfolding utf8_decode_def by (rule utf8_from_plain)

lemma utf8_from_error: "utf8_from obj pos bs = Inl e \<Longrightarrow> \<exists>p code. e = utf8_error obj p code"
proof (induction obj pos bs rule: utf8_from.induct)
  case (1 obj pos bs)
  show ?case
  proof (cases "bs = []")
    case True
    with "1.prems" show ?thesis
      by (subst (asm) utf8_from.simps) simp
  next
    case False
    show ?thesis
    proof (cases "utf8_one bs")
      case (Inl code)
      with False "1.prems" show ?thesis
        by (subst (asm) utf8_from.simps) auto
    next
      case (Inr p)
      obtain c rest where p: "p = (c, rest)" by (cases p)
      with Inr False "1.prems"
      have "utf8_from obj (pos + (length bs - length rest)) rest = Inl e"
        by (subst (asm) utf8_from.simps) (auto split: sum.splits)
      with "1.IH" [OF False Inr, of c rest] p show ?thesis
        by simp
    qed
  qed
qed

lemma plain_decode_error: "plain (exn_str rt (UnicodeDecodeError obj i j (ascii reason)))"
  by (simp add: exn_str_def plain_eval surrogate_def)

lemma utf8_decode_error_plain: "utf8_decode b = Inl e \<Longrightarrow> plain (exn_str rt e)"
  unfolding utf8_decode_def
  by (auto dest!: utf8_from_error simp: utf8_error_def plain_decode_error)

lemma plain_encode_error: "plain (exn_str rt (UnicodeEncodeError obj i j (ascii reason)))"
  by (simp add: exn_str_def plain_eval surrogate_def)

lemma plain_no_attribute: "plain (exn_str rt (no_attribute v name))"
  by (simp add: exn_str_def no_attribute_def plain_eval surrogate_def)

text \<open>The messages of \<^verbatim>\<open>json.loads\<close> are plain: no error of the scanner carries a message with a surrogate.\<close>

lemma cons_char_Inl: "cons_char x r = Inl e \<Longrightarrow> r = Inl e"
  by (auto simp: cons_char_def split: sum.splits)

lemma scanstring_error_plain: "scanstring n b s = Inl e \<Longrightarrow> error_plain e"
proof (induction n b s rule: scanstring.induct)
  case (1 n b s)
  show ?case
    using "1.prems"
    apply (subst (asm) scanstring.simps)
    apply (auto split: list.splits if_splits option.splits dest!: cons_char_Inl
                simp: plain_eval surrogate_def msg_invalid_escape_def
                      msg_invalid_unicode_escape_def intro: "1.IH")
    done
qed

lemma match_number_error_plain: "match_number n s = Inl e \<Longrightarrow> error_plain e"
  by (auto simp: match_number_def Let_def split: if_splits)

lemma scan_once_error_plain:
  "\<forall>e. scan_once n s = Inl e \<longrightarrow> error_plain e"
  "\<forall>e. parse_array n s acc = Inl e \<longrightarrow> error_plain e"
  "\<forall>e. parse_object n s acc2 = Inl e \<longrightarrow> error_plain e"
proof (induction n s and n s acc and n s acc2 rule: scan_once_parse_array_parse_object.induct)
  case (1 n s)
  show ?case
  proof (intro allI impI)
    fix e
    assume a: "scan_once n s = Inl e"
    show "error_plain e"
    proof (cases s)
      case Nil
      with a show ?thesis by (auto simp: scan_once.simps)
    next
      case (Cons c cs)
      consider (str) "c = 34" | (obj) "c = 123" | (arr) "c = 91"
        | (other) "c \<noteq> 34" "c \<noteq> 123" "c \<noteq> 91" by blast
      then show ?thesis
      proof cases
        case str
        with a Cons have "scanstring n (n - length cs) cs = Inl e"
          by (simp add: scan_once.simps split: sum.splits prod.splits)
        then show ?thesis by (rule scanstring_error_plain)
      next
        case obj
        show ?thesis
        proof (cases "dropWhile is_whitespace cs")
          case Nil
          with a Cons obj have "parse_object n [] [] = Inl e"
            by (simp add: scan_once.simps)
          then show ?thesis
            by (auto simp: parse_object.simps plain_ascii)
        next
          case (Cons d ds)
          with a \<open>s = c # cs\<close> obj have ne: "d \<noteq> 125" and p: "parse_object n (d # ds) [] = Inl e"
            by (auto simp: scan_once.simps split: if_splits)
          from "1.IH"(2) [OF \<open>s = c # cs\<close> _ obj Cons ne] obj p show ?thesis
            by simp
        qed
      next
        case arr
        show ?thesis
        proof (cases "dropWhile is_whitespace cs")
          case Nil
          with a Cons arr have "parse_array n [] [] = Inl e"
            by (simp add: scan_once.simps)
          then show ?thesis
            by (auto simp: parse_array.simps scan_once.simps)
        next
          case (Cons d ds)
          with a \<open>s = c # cs\<close> arr have ne: "d \<noteq> 93" and p: "parse_array n (d # ds) [] = Inl e"
            by (auto simp: scan_once.simps split: if_splits)
          from "1.IH"(4) [OF \<open>s = c # cs\<close> _ _ arr Cons ne] arr p show ?thesis
            by simp
        qed
      next
        case other
        with a Cons have "match_number n s = Inl e"
          by (simp add: scan_once.simps split: if_splits)
        then show ?thesis by (rule match_number_error_plain)
      qed
    qed
  qed
next
  case (2 n s acc)
  show ?case
  proof (intro allI impI)
    fix e
    assume "parse_array n s acc = Inl e"
    note a = this [unfolded parse_array.simps [of n s acc]]
    show "error_plain e"
    proof (cases "scan_once n s")
      case (Inl e')
      with a have "e = e'" by simp
      with "2.IH"(1) Inl show ?thesis by simp
    next
      case (Inr p)
      obtain v s1 where p: "p = (v, s1)" by (cases p)
      show ?thesis
      proof (cases "dropWhile is_whitespace s1")
        case Nil
        with a Inr p show ?thesis by (auto simp: plain_ascii)
      next
        case (Cons c cs)
        consider (close) "c = 93" | (bad) "c \<noteq> 93" "c \<noteq> 44" | (comma) "c = 44" by blast
        then show ?thesis
        proof cases
          case close
          with a Inr p Cons show ?thesis by simp
        next
          case bad
          with a Inr p Cons show ?thesis by (auto simp: plain_ascii)
        next
          case comma
          show ?thesis
          proof (cases "length (dropWhile is_whitespace cs) < length s")
            case True
            with a Inr p Cons comma
            have r: "parse_array n (dropWhile is_whitespace cs) (acc @ [v]) = Inl e"
              by simp
            from "2.IH"(2) Inr p Cons comma True r show ?thesis
              by auto
          next
            case False
            with a Inr p Cons comma show ?thesis by auto
          qed
        qed
      qed
    qed
  qed
next
  case (3 n s acc)
  show ?case
  proof (intro allI impI)
    fix e
    assume "parse_object n s acc = Inl e"
    note a = this [unfolded parse_object.simps [of n s acc]]
    show "error_plain e"
    proof (cases s)
      case Nil
      with a show ?thesis by (auto simp: plain_ascii)
    next
      case (Cons q cs)
      show ?thesis
      proof (cases "q = 34")
        case False
        with a Cons show ?thesis by (auto simp: plain_ascii)
      next
        case True
        note q = this
        show ?thesis
        proof (cases "scanstring n (n - length cs) cs")
          case (Inl e')
          with a Cons q have "e = e'" by simp
          with Inl show ?thesis by (auto dest: scanstring_error_plain)
        next
          case (Inr p)
          obtain key s1 where p: "p = (key, s1)" by (cases p)
          show ?thesis
          proof (cases "dropWhile is_whitespace s1")
            case Nil
            with a Cons q Inr p show ?thesis by (auto simp: plain_ascii)
          next
            case (Cons c2 cs2)
            note dw = this
            show ?thesis
            proof (cases "c2 = 58")
              case False
              with a \<open>s = q # cs\<close> q Inr p dw show ?thesis by (auto simp: plain_ascii)
            next
              case True
              note colon = this
              show ?thesis
              proof (cases "scan_once n (dropWhile is_whitespace cs2)")
                case (Inl e')
                with a \<open>s = q # cs\<close> q \<open>scanstring n (n - length cs) cs = Inr p\<close> p dw colon
                have "e = e'" by simp
                with "3.IH"(1) \<open>s = q # cs\<close> q \<open>scanstring n (n - length cs) cs = Inr p\<close> p dw
                  colon Inl
                show ?thesis by auto
              next
                case (Inr p4)
                note so = this
                obtain v s4 where p4: "p4 = (v, s4)" by (cases p4)
                show ?thesis
                proof (cases "dropWhile is_whitespace s4")
                  case Nil
                  with a \<open>s = q # cs\<close> q \<open>scanstring n (n - length cs) cs = Inr p\<close> p dw colon
                    so p4
                  show ?thesis by (auto simp: plain_ascii)
                next
                  case (Cons c5 cs5)
                  note dw5 = this
                  consider (close) "c5 = 125" | (bad) "c5 \<noteq> 125" "c5 \<noteq> 44" | (comma) "c5 = 44"
                    by blast
                  then show ?thesis
                  proof cases
                    case close
                    with a \<open>s = q # cs\<close> q \<open>scanstring n (n - length cs) cs = Inr p\<close> p dw
                      colon so p4 dw5
                    show ?thesis by simp
                  next
                    case bad
                    with a \<open>s = q # cs\<close> q \<open>scanstring n (n - length cs) cs = Inr p\<close> p dw
                      colon so p4 dw5
                    show ?thesis by (auto simp: plain_ascii)
                  next
                    case comma
                    show ?thesis
                    proof (cases "length (dropWhile is_whitespace cs5) < length s")
                      case True
                      with a \<open>s = q # cs\<close> q \<open>scanstring n (n - length cs) cs = Inr p\<close> p dw
                        colon so p4 dw5 comma
                      have r: "parse_object n (dropWhile is_whitespace cs5) (dict_set acc key v)
                                 = Inl e"
                        by simp
                      from "3.IH"(2) \<open>s = q # cs\<close> q
                        \<open>scanstring n (n - length cs) cs = Inr p\<close> p dw colon so p4 dw5 comma
                        True r
                      show ?thesis by auto
                    next
                      case False
                      with a \<open>s = q # cs\<close> q \<open>scanstring n (n - length cs) cs = Inr p\<close> p dw
                        colon so p4 dw5 comma
                      show ?thesis by auto
                    qed
                  qed
                qed
              qed
            qed
          qed
        qed
      qed
    qed
  qed
qed

lemma plain_json_error: "plain msg \<Longrightarrow> plain (exn_str rt (json_error doc msg pos))"
  by (simp add: json_error_def exn_str_def plain_eval)

lemma json_loads_error_plain:
  assumes "json_loads doc = Inl e"
  shows "plain (exn_str rt e)"
proof (cases "doc \<noteq> [] \<and> hd doc = 65279")
  case True
  with assms show ?thesis
    by (auto simp: json_loads_def plain_json_error plain_ascii)
next
  case False
  show ?thesis
  proof (cases "scan_once (length doc) (dropWhile is_whitespace doc)")
    case (Inl se)
    with scan_once_error_plain(1) [of "length doc" "dropWhile is_whitespace doc"]
    have "error_plain se" by simp
    show ?thesis
    proof (cases se)
      case (StopIteration pos)
      with assms False Inl show ?thesis
        by (auto simp: json_loads_def plain_json_error plain_ascii)
    next
      case (Errmsg msg pos)
      with assms False Inl \<open>error_plain se\<close> show ?thesis
        by (auto simp: json_loads_def plain_json_error)
    next
      case (DigitLimit k)
      with assms False Inl have "e = ValueError (digit_limit_message k)"
        by (auto simp: json_loads_def)
      then show ?thesis
        by (simp add: exn_str_def digit_limit_message_def plain_eval)
    qed
  next
    case (Inr p)
    with assms False show ?thesis
      by (auto simp: json_loads_def plain_json_error plain_ascii split: prod.splits list.splits)
  qed
qed

subsection \<open>What a statement does to standard output\<close>

text \<open>Every statement of the handler is orderly.\<close>

lemma orderly_appends: "orderly rt f \<Longrightarrow> f out = (out @ fst (f []), snd (f []))"
  by (auto simp: orderly_def)

lemma orderly_plain: "orderly rt f \<Longrightarrow> f out = (out1, Some e) \<Longrightarrow> plain (exn_str rt e)"
  by (auto simp: orderly_def)

lemma orderly_skip: "orderly rt (\<lambda>out. (out, None))"
  unfolding orderly_def by (intro exI [of _ "[]"] exI [of _ None]) simp

lemma orderly_raise: "plain (exn_str rt e) \<Longrightarrow> orderly rt (\<lambda>out. (out, Some e))"
  unfolding orderly_def by (intro exI [of _ "[]"] exI [of _ "Some e"]) simp

lemma orderly_py_print: "orderly rt (py_print rt s)"
proof (cases "encode_error (stdout_errors rt) 0 s")
  case None
  then show ?thesis
    unfolding orderly_def
    by (intro exI [of _ "[s]"] exI [of _ None]) (simp add: py_print_def)
next
  case (Some p)
  obtain i j where "p = (i, j)" by (cases p)
  with Some show ?thesis
    unfolding orderly_def
    by (intro exI [of _ "[]"]
          exI [of _ "Some (UnicodeEncodeError s i j (ascii ''surrogates not allowed''))"])
       (simp add: py_print_def plain_encode_error)
qed

lemma orderly_run_block: "list_all (orderly rt) stmts \<Longrightarrow> orderly rt (run_block stmts)"
proof (induction stmts)
  case Nil
  show ?case
    unfolding orderly_def by (intro exI [of _ "[]"] exI [of _ None]) simp
next
  case (Cons f fs)
  from Cons.prems obtain ls r where f: "\<And>out. f out = (out @ ls, r)"
    and fr: "\<And>e. r = Some e \<Longrightarrow> plain (exn_str rt e)"
    by (auto simp: orderly_def)
  from Cons obtain ls2 r2 where fs: "\<And>out. run_block fs out = (out @ ls2, r2)"
    and fsr: "\<And>e. r2 = Some e \<Longrightarrow> plain (exn_str rt e)"
    by (auto simp: orderly_def)
  show ?case
  proof (cases r)
    case None
    show ?thesis
      unfolding orderly_def
      by (intro exI [of _ "ls @ ls2"] exI [of _ r2]) (simp add: f fs None fsr)
  next
    case (Some e)
    show ?thesis
      unfolding orderly_def
      by (intro exI [of _ ls] exI [of _ r]) (simp add: f Some fr)
  qed
qed

lemma orderly_prints: "orderly rt (run_block (map (py_print rt) ls))"
  by (rule orderly_run_block) (simp add: list_all_iff orderly_py_print)

lemma orderly_print_field: "orderly rt (print_field rt label data key dflt)"
proof (cases "py_get data key dflt")
  case (Inl e)
  then have "print_field rt label data key dflt = (\<lambda>out. (out, Some e))"
    by (simp add: fun_eq_iff print_field_def)
  moreover from Inl have "plain (exn_str rt e)"
    by (auto simp: py_get_def plain_no_attribute split: pyval.splits)
  ultimately show ?thesis
    by (simp add: orderly_raise)
next
  case (Inr v)
  then have "print_field rt label data key dflt = py_print rt (label @ py_str rt v)"
    by (simp add: fun_eq_iff print_field_def)
  then show ?thesis
    by (simp add: orderly_py_print)
qed

lemma orderly_print_fields: "orderly rt (print_fields rt data)"
  unfolding print_fields_def by (rule orderly_run_block) (simp add: orderly_print_field)

lemma orderly_print_metadata: "orderly rt (print_metadata rt data)"
proof (cases "\<exists>d. data = PDict d \<and> py_bool rt (dict_get d ''metadata'' PNone)")
  case False
  then have "print_metadata rt data = (\<lambda>out. (out, None))
      \<or> print_metadata rt data = (\<lambda>out. (out, Some (no_attribute data ''get'')))"
    by (cases data) (auto simp: fun_eq_iff print_metadata_def)
  then show ?thesis
    by (auto simp: orderly_skip orderly_raise plain_no_attribute)
next
  case True
  then obtain d where d: "data = PDict d" and t: "py_bool rt (dict_get d ''metadata'' PNone)"
    by blast
  from t obtain m where m: "dict_find d (ascii ''metadata'') = Some m"
    by (cases "dict_find d (ascii ''metadata'')") (auto simp: dict_get_def py_bool_def)
  have "orderly rt (print_items rt d)"
  proof (cases "py_items m")
    case (Inl e)
    with m have "print_items rt d = (\<lambda>out. (out, Some e))"
      by (simp add: fun_eq_iff print_items_def py_getitem_def)
    moreover from Inl have "plain (exn_str rt e)"
      by (auto simp: py_items_def plain_no_attribute split: pyval.splits)
    ultimately show ?thesis
      by (simp add: orderly_raise)
  next
    case (Inr kvs)
    with m have "print_items rt d = run_block (map (\<lambda>kv. py_print rt (metadata_line rt kv)) kvs)"
      by (simp add: fun_eq_iff print_items_def py_getitem_def)
    then show ?thesis
      by (simp add: orderly_run_block list_all_iff orderly_py_print)
  qed
  moreover from d t
  have "print_metadata rt data = run_block [py_print rt text_metadata, print_items rt d]"
    by (simp add: fun_eq_iff print_metadata_def)
  ultimately show ?thesis
    by (simp add: orderly_run_block orderly_py_print)
qed

lemma orderly_try_block: "orderly rt (try_block rt post_data)"
proof (cases "utf8_decode post_data")
  case (Inl e)
  then have "try_block rt post_data = (\<lambda>out. (out, Some e))"
    by (simp add: fun_eq_iff try_block_def)
  with utf8_decode_error_plain [OF Inl] show ?thesis
    by (simp add: orderly_raise)
next
  case (Inr str)
  show ?thesis
  proof (cases "json_loads str")
    case (Inl e)
    with Inr have "try_block rt post_data = (\<lambda>out. (out, Some e))"
      by (simp add: fun_eq_iff try_block_def)
    with json_loads_error_plain [OF Inl] show ?thesis
      by (simp add: orderly_raise)
  next
    case (Inr data)
    with \<open>utf8_decode post_data = Inr str\<close>
    have "try_block rt post_data
        = run_block [print_fields rt data, print_metadata rt data, py_print rt closing_line]"
      by (simp add: fun_eq_iff try_block_def)
    then show ?thesis
      by (simp add: orderly_run_block orderly_print_fields orderly_print_metadata
            orderly_py_print)
  qed
qed

lemma orderly_print_raw: "orderly rt (print_raw rt post_data)"
proof (cases "utf8_decode post_data")
  case (Inl e)
  then have "print_raw rt post_data = (\<lambda>out. (out, Some e))"
    by (simp add: fun_eq_iff print_raw_def)
  with utf8_decode_error_plain [OF Inl] show ?thesis
    by (simp add: orderly_raise)
next
  case (Inr raw)
  then have "print_raw rt post_data = py_print rt (label_raw_data @ raw)"
    by (simp add: fun_eq_iff print_raw_def)
  then show ?thesis
    by (simp add: orderly_py_print)
qed

lemma orderly_except_block: "orderly rt (except_block rt post_data e)"
  unfolding except_block_def
  by (rule orderly_run_block) (simp add: orderly_py_print orderly_print_raw)

lemma run_block_first:
  assumes "list_all (orderly rt) fs"
  shows "\<exists>rest. fst (run_block (f # fs) out) = fst (f out) @ rest"
proof (cases "f out")
  case (Pair out1 r)
  show ?thesis
  proof (cases r)
    case None
    from orderly_appends [OF orderly_run_block [OF assms], of out1] Pair None
    show ?thesis by simp
  next
    case (Some e)
    with Pair show ?thesis by simp
  qed
qed

lemma run_prints_prefix:
  "list_all (encodable rt) (take k ls)
   \<Longrightarrow> \<exists>rest. fst (run_block (map (py_print rt) ls) out) = out @ take k ls @ rest"
proof (induction ls arbitrary: k out)
  case Nil
  then show ?case by simp
next
  case (Cons l ls)
  show ?case
  proof (cases k)
    case 0
    from orderly_appends [OF orderly_prints, of rt "l # ls" out] show ?thesis
      by (simp add: 0)
  next
    case (Suc j)
    with Cons.prems have l: "encodable rt l" and r: "list_all (encodable rt) (take j ls)"
      by simp_all
    from Cons.IH [OF r, of "out @ [l]"] l show ?thesis
      by (simp add: Suc py_print_encodable)
  qed
qed

subsection \<open>How \<open>do_POST\<close> depends on the body\<close>

lemma read_body_ok:
  assumes "header_get (headers req) ''Content-Length'' = Some s" and "py_int s = Inr n"
    and "n = - 1 \<or> (0 \<le> n \<and> n \<le> ssize_max - bytes_header \<and> can_allocate rt (nat n))"
  shows "read_body rt req = Inr (if n = - 1 then rfile req else take (nat n) (rfile req))"
  using assms
  by (auto simp: read_body_def py_int_opt_def rfile_read_def ssize_max_def bytes_header_def)

lemma do_POST_unreadable: "read_body rt req = Inl e \<Longrightarrow> do_POST rt req out = (out, Inl e)"
  by (simp add: do_POST_def)

lemma do_POST_appends:
  "do_POST rt req out = (out @ fst (do_POST rt req []), snd (do_POST rt req []))"
proof (cases "read_body rt req")
  case (Inl e)
  then show ?thesis by (simp add: do_POST_def)
next
  case (Inr post_data)
  from orderly_try_block [of rt post_data]
  obtain ls r where t: "\<And>out. try_block rt post_data out = (out @ ls, r)"
    by (auto simp: orderly_def)
  show ?thesis
  proof (cases r)
    case None
    with Inr t show ?thesis
      by (simp add: do_POST_def receipt_printed)
  next
    case (Some e)
    from orderly_except_block [of rt post_data e]
    obtain ls2 r2 where x: "\<And>out. except_block rt post_data e out = (out @ ls2, r2)"
      by (auto simp: orderly_def)
    from Inr t Some x show ?thesis
      by (cases r2) (simp_all add: do_POST_def receipt_printed)
  qed
qed

lemma except_block_invalid:
  assumes "plain (exn_str rt e)" and "utf8_decode post_data = Inl e2"
  shows "except_block rt post_data e out = (out @ [label_parse_error @ exn_str rt e], Some e2)"
  using assms
  by (simp add: except_block_def print_raw_def py_print_plain plain_append plain_texts)

lemma except_block_valid:
  assumes "plain (exn_str rt e)" and "utf8_decode post_data = Inr str"
  shows "except_block rt post_data e out
    = (out @ [label_parse_error @ exn_str rt e, label_raw_data @ str], None)"
  using assms utf8_decode_plain [OF assms(2)]
  by (simp add: except_block_def print_raw_def py_print_plain plain_append plain_texts)

lemma do_POST_invalid_utf8:
  assumes "read_body rt req = Inr post_data" and "utf8_decode post_data = Inl e"
  shows "do_POST rt req out
    = (out @ receipt_block @ [label_parse_error @ exn_str rt e], Inl e)"
  using assms except_block_invalid [OF utf8_decode_error_plain [OF assms(2)] assms(2)]
  by (simp add: do_POST_def receipt_printed try_block_def)

lemma do_POST_valid_utf8:
  assumes "read_body rt req = Inr post_data" and "utf8_decode post_data = Inr str"
  shows "do_POST rt req out =
    (case try_block rt post_data (out @ receipt_block) of
       (out2, None) \<Rightarrow> (out2, Inr acknowledgment)
     | (out2, Some e) \<Rightarrow>
         (out2 @ [label_parse_error @ exn_str rt e, label_raw_data @ str], Inr acknowledgment))"
proof (cases "try_block rt post_data (out @ receipt_block)")
  case (Pair out2 r)
  show ?thesis
  proof (cases r)
    case None
    with Pair assms show ?thesis
      by (simp add: do_POST_def receipt_printed)
  next
    case (Some e)
    with Pair have "plain (exn_str rt e)"
      using orderly_plain [OF orderly_try_block] by blast
    from except_block_valid [OF this assms(2)] Pair Some assms show ?thesis
      by (simp add: do_POST_def receipt_printed)
  qed
qed

lemma do_POST_invalid_json:
  assumes "read_body rt req = Inr post_data" and "utf8_decode post_data = Inr str"
    and "json_loads str = Inl e"
  shows "do_POST rt req out =
    (out @ receipt_block @ [label_parse_error @ exn_str rt e, label_raw_data @ str],
     Inr acknowledgment)"
  using assms by (simp add: do_POST_valid_utf8 try_block_def)

lemma print_fields_dict:
  "print_fields rt (PDict d) = run_block (map (py_print rt) (field_lines rt d))"
  by (simp add: fun_eq_iff print_fields_def print_field_def py_get_def field_lines_def)

lemma print_fields_other:
  "type_name data \<noteq> ''dict''
   \<Longrightarrow> print_fields rt data out = (out, Some (no_attribute data ''get''))"
  by (cases data) (simp_all add: print_fields_def print_field_def py_get_def type_name_def)

lemma do_POST_not_dict:
  assumes "read_body rt req = Inr post_data" and "utf8_decode post_data = Inr str"
    and "json_loads str = Inr data" and "type_name data \<noteq> ''dict''"
  shows "do_POST rt req out =
    (out @ receipt_block @ [label_parse_error @ exn_str rt (no_attribute data ''get''),
                            label_raw_data @ str], Inr acknowledgment)"
  using assms by (simp add: do_POST_valid_utf8 try_block_def print_fields_other)

lemma do_POST_dict:
  assumes "read_body rt req = Inr post_data" and "utf8_decode post_data = Inr str"
    and "json_loads str = Inr (PDict d)"
    and "list_all (encodable rt) (field_lines rt d)"
  shows "do_POST rt req out =
    (case print_metadata rt (PDict d) (out @ receipt_block @ field_lines rt d) of
       (out2, None) \<Rightarrow> (out2 @ [closing_line], Inr acknowledgment)
     | (out2, Some e) \<Rightarrow>
         (out2 @ [label_parse_error @ exn_str rt e, label_raw_data @ str], Inr acknowledgment))"
  using assms
  by (simp add: do_POST_valid_utf8 try_block_def print_fields_dict run_prints
        py_print_plain plain_texts split: prod.splits option.splits)

lemma do_POST_dict_prefix:
  assumes "read_body rt req = Inr post_data" and "utf8_decode post_data = Inr str"
    and "json_loads str = Inr (PDict d)"
    and "list_all (encodable rt) (take k (field_lines rt d))"
  shows "\<exists>rest. fst (do_POST rt req out) = out @ receipt_block @ take k (field_lines rt d) @ rest"
proof -
  let ?out1 = "out @ receipt_block"
  have "\<exists>rest. fst (do_POST rt req out) = fst (try_block rt post_data ?out1) @ rest"
    by (simp add: do_POST_valid_utf8 [OF assms(1,2)] split: prod.splits option.splits)
  moreover have "try_block rt post_data ?out1
      = run_block [print_fields rt (PDict d), print_metadata rt (PDict d),
                   py_print rt closing_line] ?out1"
    using assms(2,3) by (simp add: try_block_def)
  moreover have "\<exists>rest. fst (run_block [print_fields rt (PDict d), print_metadata rt (PDict d),
                   py_print rt closing_line] ?out1) = fst (print_fields rt (PDict d) ?out1) @ rest"
    by (rule run_block_first [where rt = rt]) (simp add: orderly_print_metadata orderly_py_print)
  moreover have "\<exists>rest. fst (print_fields rt (PDict d) ?out1)
      = ?out1 @ take k (field_lines rt d) @ rest"
    unfolding print_fields_dict by (rule run_prints_prefix [OF assms(4)])
  ultimately show ?thesis
    by auto
qed

lemma serve_forever_eq:
  "serve_forever rt out reqs =
     (out @ concat (map (\<lambda>r. fst (do_POST rt r [])) reqs), map (\<lambda>r. snd (do_POST rt r [])) reqs)"
proof (induction reqs arbitrary: out)
  case Nil
  show ?case by simp
next
  case (Cons req reqs)
  show ?case
    by (simp add: do_POST_appends [of rt req out] Cons.IH)
qed

subsection \<open>Evaluation on sample requests\<close>

lemmas int_eval =
  py_int_def int_space_def is_digit_def digits_value_def int_max_str_digits_def Let_def

lemmas utf8_eval =
  utf8_decode_def utf8_from.simps utf8_error_def is_continuation_def ascii_def

lemmas json_eval =
  json_loads_def json_error_def scan_once.simps parse_array.simps parse_object.simps
  scanstring.simps match_number_def int_part_def frac_part_def exp_part_def
  is_whitespace_def is_digit_def ascii_def cons_char_def escape_char_def hex_escape_def hex_val_def
  digits_value_def int_max_str_digits_def Let_def
  msg_invalid_escape_def msg_invalid_unicode_escape_def

lemmas str_eval =
  exn_str_def str_nat.simps str_int_def ascii_def hex2_def hex4_def hex8_def hex_digit_def
  no_attribute_def type_name_def py_str_def

lemma header_post_request:
  "header_get (headers (post_request cl data)) ''Content-Length'' = Some cl"
  by (simp add: post_request_def)

lemma rfile_post_request: "rfile (post_request cl data) = data"
  by (simp add: post_request_def)

lemma stdout_errors_sample: "stdout_errors sample_runtime = Strict"
  by (simp add: sample_runtime_def)

lemma py_int_8: "py_int ''8'' = Inr 8"
  by (simp add: int_eval)

lemma py_int_1: "py_int ''1'' = Inr 1"
  by (simp add: int_eval)

lemma py_int_3: "py_int ''3'' = Inr 3"
  by (simp add: int_eval)

lemma py_int_64: "py_int ''64'' = Inr 64"
  by (simp add: int_eval)

lemma py_int_minus_7: "py_int ''-7'' = Inr (- 7)"
  by (simp add: int_eval)

lemma py_int_minus_5: "py_int ''-5'' = Inr (- 5)"
  by (simp add: int_eval)

lemma py_int_abc: "py_int ''abc'' = Inl (ValueError_literal ''abc'')"
  by (simp add: int_eval)

lemma py_int_9001: "py_int ''9001'' = Inr 9001"
  by (simp add: int_eval)

lemma read_post_request:
  assumes "py_int cl = Inr n" and "int (length data) \<le> n" and "n \<le> 1048576"
  shows "read_body sample_runtime (post_request cl data) = Inr data"
proof -
  from assms have "n = - 1 \<or> (0 \<le> n \<and> n \<le> ssize_max - bytes_header
      \<and> can_allocate sample_runtime (nat n))"
    by (simp add: sample_runtime_def ssize_max_def bytes_header_def)
  from read_body_ok [OF header_post_request assms(1) this, of data] assms(2)
  show ?thesis
    by (simp add: rfile_post_request)
qed

text \<open>
  A length that does not fit the index, or that fits it only without the header of the
  \<^verbatim>\<open>bytes\<close> object, or for which there is no memory, makes the read raise.
\<close>

lemma read_body_too_large:
  assumes "header_get (headers req) ''Content-Length'' = Some s" and "py_int s = Inr n"
  shows "ssize_max < n \<Longrightarrow> \<exists>m. read_body rt req = Inl (OverflowError m)"
    and "ssize_max - bytes_header < n \<Longrightarrow> \<exists>m. read_body rt req = Inl (OverflowError m)"
    and "0 \<le> n \<Longrightarrow> n \<le> ssize_max - bytes_header \<Longrightarrow> \<not> can_allocate rt (nat n)
         \<Longrightarrow> read_body rt req = Inl MemoryError"
  using assms
  by (auto simp: read_body_def py_int_opt_def rfile_read_def ssize_max_def bytes_header_def)

lemma utf8_not_json: "utf8_decode ''not json'' = Inr (ascii ''not json'')"
  by (simp add: utf8_eval)

lemma loads_not_json:
  "json_loads (ascii ''not json'') = Inl (JSONDecodeError (ascii ''Expecting value'') 1 1 0)"
  by (simp add: json_eval)

lemma str_expecting_value:
  "exn_str rt (JSONDecodeError (ascii ''Expecting value'') 1 1 0)
     = ascii ''Expecting value: line 1 column 1 (char 0)''"
  by (simp add: str_eval)

lemma utf8_invalid_byte:
  "utf8_decode [CHR 0xFF] = Inl (UnicodeDecodeError [CHR 0xFF] 0 1 (ascii ''invalid start byte''))"
  by (simp add: utf8_eval)

lemma str_invalid_byte:
  "exn_str rt (UnicodeDecodeError [CHR 0xFF] 0 1 (ascii ''invalid start byte''))
     = [39] @ ascii ''utf-8'' @ [39] @ ascii '' codec can'' @ [39]
       @ ascii ''t decode byte 0xff in position 0: invalid start byte''"
  by (simp add: str_eval)

lemma utf8_array: "utf8_decode ''[1, 2]'' = Inr (ascii ''[1, 2]'')"
  by (simp add: utf8_eval)

lemma loads_array: "json_loads (ascii ''[1, 2]'') = Inr (PList [PInt 1, PInt 2])"
  by (simp add: json_eval)

lemma utf8_zone:
  \<open>utf8_decode ''{"metadata": {"zone": "us-east"}}'' = Inr (ascii ''{"metadata": {"zone": "us-east"}}'')\<close>
  by (simp add: utf8_eval)

lemma loads_zone:
  \<open>json_loads (ascii ''{"metadata": {"zone": "us-east"}}'')
     = Inr (PDict [(ascii ''metadata'', PDict [(ascii ''zone'', PStr (ascii ''us-east''))])])\<close>
  by (simp add: json_eval)

lemma utf8_empty_metadata:
  \<open>utf8_decode ''{"metadata": {}}'' = Inr (ascii ''{"metadata": {}}'')\<close>
  by (simp add: utf8_eval)

lemma loads_empty_metadata:
  \<open>json_loads (ascii ''{"metadata": {}}'') = Inr (PDict [(ascii ''metadata'', PDict [])])\<close>
  by (simp add: json_eval)

lemma utf8_null_device:
  \<open>utf8_decode ''{"title": "disk full", "device_id": null}''
     = Inr (ascii ''{"title": "disk full", "device_id": null}'')\<close>
  by (simp add: utf8_eval)

lemma loads_null_device:
  \<open>json_loads (ascii ''{"title": "disk full", "device_id": null}'')
     = Inr (PDict [(ascii ''title'', PStr (ascii ''disk full'')), (ascii ''device_id'', PNone)])\<close>
  by (simp add: json_eval)

lemma utf8_title:
  \<open>utf8_decode ''{"title": "disk full"}'' = Inr (ascii ''{"title": "disk full"}'')\<close>
  by (simp add: utf8_eval)

lemma loads_title:
  \<open>json_loads (ascii ''{"title": "disk full"}'')
     = Inr (PDict [(ascii ''title'', PStr (ascii ''disk full''))])\<close>
  by (simp add: json_eval)

lemma read_not_json: "read_body sample_runtime (post_request ''8'' ''not json'') = Inr ''not json''"
  by (rule read_post_request [OF py_int_8]) simp_all

lemma read_invalid_byte: "read_body sample_runtime (post_request ''1'' [CHR 0xFF]) = Inr [CHR 0xFF]"
  by (rule read_post_request [OF py_int_1]) simp_all

lemma read_title:
  \<open>read_body sample_runtime (post_request ''64'' ''{"title": "disk full"}'')
     = Inr ''{"title": "disk full"}''\<close>
  by (rule read_post_request [OF py_int_64]) simp_all

lemma read_null_device:
  \<open>read_body sample_runtime (post_request ''64'' ''{"title": "disk full", "device_id": null}'')
     = Inr ''{"title": "disk full", "device_id": null}''\<close>
  by (rule read_post_request [OF py_int_64]) simp_all

lemma read_zone:
  \<open>read_body sample_runtime (post_request ''64'' ''{"metadata": {"zone": "us-east"}}'')
     = Inr ''{"metadata": {"zone": "us-east"}}''\<close>
  by (rule read_post_request [OF py_int_64]) simp_all

lemma read_empty_metadata:
  \<open>read_body sample_runtime (post_request ''64'' ''{"metadata": {}}'') = Inr ''{"metadata": {}}''\<close>
  by (rule read_post_request [OF py_int_64]) simp_all

lemma read_array: "read_body sample_runtime (post_request ''64'' ''[1, 2]'') = Inr ''[1, 2]''"
  by (rule read_post_request [OF py_int_64]) simp_all

lemmas dict_eval = dict_get_def py_str_def ascii_def

lemma str_int_8888: "str_int 8888 = ascii ''8888''"
  by (simp add: str_eval)

lemma str_int_9001: "str_int 9001 = ascii ''9001''"
  by (simp add: str_eval)

lemma py_int_70000: "py_int ''70000'' = Inr 70000"
  by (simp add: int_eval)

text \<open>
  \<^verbatim>\<open>json.loads\<close> turns the escape \<^verbatim>\<open>\ud800\<close> into the code point U+D800 (55296).
\<close>

lemma utf8_surrogate_title: "utf8_decode body_surrogate_title = Inr (ascii body_surrogate_title)"
  by (simp add: body_surrogate_title_def utf8_eval)

lemma loads_surrogate_title:
  "json_loads (ascii body_surrogate_title) = Inr (PDict [(ascii ''title'', PStr [55296])])"
  by (simp add: body_surrogate_title_def json_eval)

lemma read_surrogate_title:
  "read_body sample_runtime (post_request ''64'' body_surrogate_title) = Inr body_surrogate_title"
  by (rule read_post_request [OF py_int_64]) (simp_all add: body_surrogate_title_def)

lemma utf8_surrogate_zone: "utf8_decode body_surrogate_zone = Inr (ascii body_surrogate_zone)"
  by (simp add: body_surrogate_zone_def utf8_eval)

lemma loads_surrogate_zone:
  "json_loads (ascii body_surrogate_zone)
     = Inr (PDict [(ascii ''metadata'', PDict [(ascii ''zone'', PStr [55296])])])"
  by (simp add: body_surrogate_zone_def json_eval)

lemma read_surrogate_zone:
  "read_body sample_runtime (post_request ''64'' body_surrogate_zone) = Inr body_surrogate_zone"
  by (rule read_post_request [OF py_int_64]) (simp_all add: body_surrogate_zone_def)

lemma utf8_surrogate_device: "utf8_decode body_surrogate_device = Inr (ascii body_surrogate_device)"
  by (simp add: body_surrogate_device_def utf8_eval)

lemma loads_surrogate_device:
  "json_loads (ascii body_surrogate_device)
     = Inr (PDict [(ascii ''title'', PStr [55296]), (ascii ''device_id'', PNone)])"
  by (simp add: body_surrogate_device_def json_eval)

lemma read_surrogate_device:
  "read_body sample_runtime (post_request ''64'' body_surrogate_device) = Inr body_surrogate_device"
  by (rule read_post_request [OF py_int_64]) (simp_all add: body_surrogate_device_def)

text \<open>
  With such a title the second \<^verbatim>\<open>print\<close> of the \<^verbatim>\<open>try\<close> block raises; with such a
  metadata value the \<^verbatim>\<open>print\<close> in the loop raises, after the eight fields and the
  heading have been printed.
\<close>

lemma print_fields_surrogate_title:
  assumes "dict_find d (ascii ''alert_id'') = None"
  shows "print_fields sample_runtime (PDict ((ascii ''title'', PStr [55296]) # d)) out
     = (out @ [label_alert_id @ ascii ''None''],
        Some (UnicodeEncodeError (label_title @ [55296]) 4 5 (ascii ''surrogates not allowed'')))"
proof -
  note assms [unfolded ascii_def, simplified, simp]
  have "py_print sample_runtime (label_alert_id @ ascii ''None'') out
      = (out @ [label_alert_id @ ascii ''None''], None)"
    by (simp add: py_print_plain plain_append plain_texts plain_ascii)
  moreover have "py_print sample_runtime (label_title @ [55296]) out1
      = (out1, Some (UnicodeEncodeError (label_title @ [55296]) 4 5 (ascii ''surrogates not allowed'')))"
    for out1
    by (simp add: py_print_def stdout_errors_sample label_title_def ascii_def surrogate_def)
  ultimately show ?thesis
    by (simp add: print_fields_def print_field_def py_get_def dict_get_def ascii_def py_str_def)
qed

lemma str_surrogate_title:
  "exn_str rt (UnicodeEncodeError (label_title @ [55296]) 4 5 (ascii ''surrogates not allowed''))
     = [39] @ ascii ''utf-8'' @ [39] @ ascii '' codec can'' @ [39] @ ascii ''t encode character ''
       @ [39, 92] @ ascii ''ud800'' @ [39] @ ascii '' in position 4: surrogates not allowed''"
  by (simp add: str_eval label_title_def)

lemma field_lines_zone:
  "field_lines rt [(ascii ''metadata'', PDict m)]
     = [label_alert_id @ ascii ''None'', label_title @ ascii ''None'',
        label_message @ ascii ''None'', label_severity @ ascii ''None'',
        label_alert_type @ ascii ''None'', label_device_id @ ascii ''N/A'',
        label_created_at @ ascii ''None'', label_timestamp @ ascii ''None'']"
  by (simp add: field_lines_def dict_eval)

lemma field_lines_title:
  "field_lines rt [(ascii ''title'', PStr (ascii ''disk full''))]
     = [label_alert_id @ ascii ''None'', label_title @ ascii ''disk full'',
        label_message @ ascii ''None'', label_severity @ ascii ''None'',
        label_alert_type @ ascii ''None'', label_device_id @ ascii ''N/A'',
        label_created_at @ ascii ''None'', label_timestamp @ ascii ''None'']"
  by (simp add: field_lines_def dict_eval)

lemma field_lines_null_device:
  "field_lines rt [(ascii ''title'', PStr (ascii ''disk full'')), (ascii ''device_id'', PNone)]
     = [label_alert_id @ ascii ''None'', label_title @ ascii ''disk full'',
        label_message @ ascii ''None'', label_severity @ ascii ''None'',
        label_alert_type @ ascii ''None'', label_device_id @ ascii ''None'',
        label_created_at @ ascii ''None'', label_timestamp @ ascii ''None'']"
  by (simp add: field_lines_def dict_eval)

lemma plain_lines:
  "list_all plain
     [label_alert_id @ ascii a, label_title @ ascii b, label_message @ ascii c,
      label_severity @ ascii d, label_alert_type @ ascii e, label_device_id @ ascii f,
      label_created_at @ ascii g, label_timestamp @ ascii h]"
  by (simp add: plain_append plain_texts plain_ascii)

lemma encodable_lines: "list_all plain ls \<Longrightarrow> list_all (encodable rt) ls"
  by (simp add: list_all_iff plain_encodable)

lemma print_metadata_surrogate_zone:
  "print_metadata sample_runtime (PDict [(ascii ''metadata'', PDict [(ascii ''zone'', PStr [55296])])]) out
     = (out @ [text_metadata],
        Some (UnicodeEncodeError (ascii ''  zone: '' @ [55296]) 8 9 (ascii ''surrogates not allowed'')))"
proof -
  have "py_print sample_runtime text_metadata out = (out @ [text_metadata], None)"
    by (simp add: py_print_plain plain_texts)
  moreover have "py_print sample_runtime (ascii ''  zone: '' @ [55296]) out1
      = (out1, Some (UnicodeEncodeError (ascii ''  zone: '' @ [55296]) 8 9
                       (ascii ''surrogates not allowed'')))" for out1
    by (simp add: py_print_def stdout_errors_sample ascii_def surrogate_def)
  moreover have "metadata_line sample_runtime (ascii ''zone'', PStr [55296])
      = ascii ''  zone: '' @ [55296]"
    by (simp add: metadata_line_def py_str_def ascii_def)
  ultimately show ?thesis
    by (simp add: print_metadata_def print_items_def py_getitem_def py_items_def dict_get_def
          py_bool_def)
qed

lemma str_surrogate_zone:
  "exn_str rt (UnicodeEncodeError (ascii ''  zone: '' @ [55296]) 8 9 (ascii ''surrogates not allowed''))
     = [39] @ ascii ''utf-8'' @ [39] @ ascii '' codec can'' @ [39] @ ascii ''t encode character ''
       @ [39, 92] @ ascii ''ud800'' @ [39] @ ascii '' in position 8: surrogates not allowed''"
  by (simp add: str_eval)

subsection \<open>Absent keys, null values, and the banner\<close>

lemma absent_renders_None:
  "dict_find d (ascii key) = None \<Longrightarrow> py_str rt (dict_get d key PNone) = ascii ''None''"
  by (simp add: dict_get_def py_str_def)

lemma absent_renders_placeholder:
  "dict_find d (ascii key) = None
   \<Longrightarrow> py_str rt (dict_get d key (PStr (ascii ''N/A''))) = ascii ''N/A''"
  by (simp add: dict_get_def py_str_def)

lemma null_renders_None:
  "dict_find d (ascii key) = Some PNone \<Longrightarrow> py_str rt (dict_get d key dflt) = ascii ''None''"
  by (simp add: dict_get_def py_str_def)

lemma None_is_not_placeholder: "ascii ''None'' \<noteq> ascii ''N/A''"
  by (simp add: ascii_def)

lemma run_server_ok:
  assumes "0 < port" and "port \<le> 65535" and "bind_failure os port = None"
  shows "run_server rt os port reqs =
    \<lparr>stdout = banner port @ concat (map (\<lambda>r. fst (do_POST rt r [])) reqs),
     bound = Some port,
     replies = map (\<lambda>r. snd (do_POST rt r [])) reqs,
     uncaught = None\<rparr>"
  using assms banner_printed [of rt port "[]"]
  by (simp add: run_server_def HTTPServer_def serve_forever_eq)

lemma main_ok:
  assumes "0 < port" and "port \<le> 65535" and "bind_failure os port = None"
    and "(if length argv > 1 then py_int (argv ! 1) else Inr 8888) = Inr port"
  shows "main rt os argv reqs =
    \<lparr>stdout = banner port @ concat (map (\<lambda>r. fst (do_POST rt r [])) reqs) @ [text_stopped],
     bound = Some port,
     replies = map (\<lambda>r. snd (do_POST rt r [])) reqs,
     uncaught = None\<rparr>"
  using assms(4)
  by (simp add: main_def run_server_ok [OF assms(1-3)] py_print_plain plain_texts)

lemma take_banner: "take 3 (banner port @ xs) = banner port"
  by (simp add: banner_def)

section \<open>The claims\<close>

text \<open>
  C1, as stated: for every POST request whose \<^verbatim>\<open>Content-Length\<close> header is a
  syntactically valid integer, the response is status 200 with header
  \<^verbatim>\<open>Content-Type: application/json\<close> and body \<^verbatim>\<open>{"status": "received"}\<close>, whatever the
  body. This fails for the header value \<^verbatim>\<open>-7\<close>: it is an integer for \<^verbatim>\<open>int\<close>,
  \<^verbatim>\<open>read(-7)\<close> raises \<^verbatim>\<open>ValueError\<close>, nothing is printed and no response is sent.
\<close>

theorem acknowledgment_counterexample:
  "py_int ''-7'' = Inr (- 7)
   \<and> do_POST sample_runtime (post_request ''-7'' ''{}'') []
       = ([], Inl (ValueError (ascii ''read length must be non-negative or -1'')))"
  by (simp add: py_int_minus_7 do_POST_def read_body_def py_int_opt_def rfile_read_def
        header_post_request rfile_post_request ssize_max_def)

text \<open>
  C1, amended: for every POST request whose \<^verbatim>\<open>Content-Length\<close> header is an integer
  \<open>n\<close> that the read accepts, and whose body, as read, is valid UTF-8, the response is
  status 200 with header \<^verbatim>\<open>Content-type: application/json\<close> and body
  \<^verbatim>\<open>{"status": "received"}\<close>, whether or not the text is valid JSON and whether or not
  it can be printed. The read accepts \<open>n = -1\<close>, and \<open>n\<close> from 0 to \<open>2\<^sup>6\<^sup>3 - 34\<close> if a
  \<^verbatim>\<open>bytes\<close> object of \<open>n\<close> bytes can be allocated. (What happens to a body that is not
  valid UTF-8 is the subject of C2.)
\<close>

theorem acknowledgment_invariance:
  assumes "header_get (headers req) ''Content-Length'' = Some s"
    and "py_int s = Inr n"
    and "n = - 1 \<or> (0 \<le> n \<and> n \<le> ssize_max - bytes_header \<and> can_allocate rt (nat n))"
    and "utf8_decode (if n = - 1 then rfile req else take (nat n) (rfile req)) = Inr str"
  shows \<open>\<exists>r. snd (do_POST rt req out) = Inr r \<and> status r = 200
           \<and> header_get (response_headers r) ''Content-Type'' = Some ''application/json''
           \<and> body r = ''{"status": "received"}''\<close>
proof -
  have "snd (do_POST rt req out) = Inr acknowledgment"
    using do_POST_valid_utf8 [OF read_body_ok [OF assms(1-3)] assms(4), of out]
    by (simp split: prod.splits option.splits)
  moreover have "header_get (response_headers acknowledgment) ''Content-Type'' = Some ''application/json''"
    by code_simp
  ultimately show ?thesis
    by (simp add: acknowledgment_def)
qed

theorem acknowledgment_invariance_witness:
  \<open>header_get (headers (post_request ''8'' ''not json'')) ''Content-Length'' = Some ''8''
   \<and> py_int ''8'' = Inr 8
   \<and> ((8 :: int) = - 1
        \<or> (0 \<le> (8 :: int) \<and> 8 \<le> ssize_max - bytes_header \<and> can_allocate sample_runtime (nat 8)))
   \<and> utf8_decode (if (8 :: int) = - 1 then rfile (post_request ''8'' ''not json'')
                   else take (nat 8) (rfile (post_request ''8'' ''not json'')))
       = Inr (ascii ''not json'')
   \<and> json_loads (ascii ''not json'') = Inl (JSONDecodeError (ascii ''Expecting value'') 1 1 0)
   \<and> (\<exists>r. snd (do_POST sample_runtime (post_request ''8'' ''not json'') []) = Inr r
          \<and> status r = 200
          \<and> header_get (response_headers r) ''Content-Type'' = Some ''application/json''
          \<and> body r = ''{"status": "received"}'')\<close>
proof -
  have u: "utf8_decode (if (8 :: int) = - 1 then rfile (post_request ''8'' ''not json'')
                        else take (nat 8) (rfile (post_request ''8'' ''not json'')))
           = Inr (ascii ''not json'')"
    by (simp add: rfile_post_request utf8_not_json)
  have m: "(8 :: int) = - 1
        \<or> (0 \<le> (8 :: int) \<and> 8 \<le> ssize_max - bytes_header \<and> can_allocate sample_runtime (nat 8))"
    by (simp add: ssize_max_def bytes_header_def sample_runtime_def)
  from acknowledgment_invariance [OF header_post_request py_int_8 m u, of "[]"]
  show ?thesis
    using header_post_request py_int_8 m u loads_not_json by simp
qed

text \<open>
  C2: a POST body that is not valid UTF-8 is handled like a JSON parse failure: the
  parse-error message and the raw text are printed and the acknowledgment is sent.
  The code does not do this. For the one-byte body \<open>0xFF\<close> the first \<^verbatim>\<open>decode\<close> raises,
  the \<^verbatim>\<open>except\<close> clause prints the parse-error line and then calls \<^verbatim>\<open>decode\<close> on the
  same bytes again (line 38); that raises again, outside any \<^verbatim>\<open>try\<close>, so that the
  raw-data line is not printed and no response is sent.
\<close>

theorem invalid_utf8_not_acknowledged:
  "do_POST sample_runtime (post_request ''1'' [CHR 0xFF]) []
     = (receipt_block
          @ [label_parse_error @ [39] @ ascii ''utf-8'' @ [39] @ ascii '' codec can'' @ [39]
               @ ascii ''t decode byte 0xff in position 0: invalid start byte''],
        Inl (UnicodeDecodeError [CHR 0xFF] 0 1 (ascii ''invalid start byte'')))"
  using do_POST_invalid_utf8 [OF read_invalid_byte utf8_invalid_byte, of "[]"]
  by (simp only: str_invalid_byte append_Nil)

text \<open>
  C3: for every POST body that is valid UTF-8 but not valid JSON, the handler prints a
  parse-error line with the description of the failure and a line with the raw text,
  and answers with status 200 and the fixed body. \<open>out\<close> is standard output as the
  request finds it.
\<close>

theorem malformed_json_tolerated:
  assumes "read_body rt req = Inr post_data"
    and "utf8_decode post_data = Inr str"
    and "json_loads str = Inl e"
  shows \<open>do_POST rt req out
           = (out @ receipt_block @ [label_parse_error @ exn_str rt e, label_raw_data @ str],
              Inr acknowledgment)
         \<and> status acknowledgment = 200
         \<and> body acknowledgment = ''{"status": "received"}''\<close>
  using do_POST_invalid_json [OF assms] by (simp add: acknowledgment_def)

theorem malformed_json_tolerated_witness:
  \<open>read_body sample_runtime (post_request ''8'' ''not json'') = Inr ''not json''
   \<and> utf8_decode ''not json'' = Inr (ascii ''not json'')
   \<and> json_loads (ascii ''not json'') = Inl (JSONDecodeError (ascii ''Expecting value'') 1 1 0)
   \<and> do_POST sample_runtime (post_request ''8'' ''not json'') []
       = (receipt_block
            @ [label_parse_error @ ascii ''Expecting value: line 1 column 1 (char 0)'',
               label_raw_data @ ascii ''not json''],
          Inr acknowledgment)
   \<and> status acknowledgment = 200
   \<and> body acknowledgment = ''{"status": "received"}''\<close>
  using malformed_json_tolerated [OF read_not_json utf8_not_json loads_not_json, of "[]"]
    read_not_json utf8_not_json loads_not_json
  by (simp only: str_expecting_value simp_thms append_Nil)

text \<open>
  C4, as stated: a missing or non-numeric \<^verbatim>\<open>Content-Length\<close> header makes the body read
  fail with an exception that nothing handles, and for every numeric
  \<^verbatim>\<open>Content-Length\<close> the handler reads exactly that many bytes. The second half fails
  for the numeric value \<^verbatim>\<open>-5\<close>: the read raises, as it does for a header that is no
  number, and no byte of the six-byte body is read.
\<close>

theorem numeric_length_counterexample:
  "py_int ''-5'' = Inr (- 5)
   \<and> read_body sample_runtime (post_request ''-5'' ''abcdef'')
       = Inl (ValueError (ascii ''read length must be non-negative or -1''))"
  by (simp add: py_int_minus_5 read_body_def py_int_opt_def rfile_read_def
        header_post_request rfile_post_request ssize_max_def)

text \<open>
  C4, amended: if the \<^verbatim>\<open>Content-Length\<close> header is missing, or is not an integer for
  \<^verbatim>\<open>int\<close>, \<^verbatim>\<open>do_POST\<close> ends with the \<^verbatim>\<open>TypeError\<close> or \<^verbatim>\<open>ValueError\<close> of line 11
  before it prints or sends anything. If the header is an integer \<open>n\<close> from 0 to
  \<open>2\<^sup>6\<^sup>3 - 34\<close> and a \<^verbatim>\<open>bytes\<close> object of \<open>n\<close> bytes can be allocated, the handler reads
  the first \<open>n\<close> bytes of the body, which are exactly \<open>n\<close> bytes when the client has sent
  at least that many.
\<close>

theorem content_length_read:
  "(header_get (headers req) ''Content-Length'' = None
      \<longrightarrow> (\<exists>m. do_POST rt req out = (out, Inl (TypeError m))))
   \<and> (header_get (headers req) ''Content-Length'' = Some s \<and> py_int s = Inl e
      \<longrightarrow> do_POST rt req out = (out, Inl e))
   \<and> (header_get (headers req) ''Content-Length'' = Some s \<and> py_int s = Inr n \<and> 0 \<le> n
        \<and> n \<le> ssize_max - bytes_header \<and> can_allocate rt (nat n)
      \<longrightarrow> read_body rt req = Inr (take (nat n) (rfile req))
          \<and> (n \<le> int (length (rfile req)) \<longrightarrow> int (length (take (nat n) (rfile req))) = n))"
proof (intro conjI impI)
  assume "header_get (headers req) ''Content-Length'' = None"
  then have "\<exists>m. read_body rt req = Inl (TypeError m)"
    by (simp add: read_body_def py_int_opt_def)
  then show "\<exists>m. do_POST rt req out = (out, Inl (TypeError m))"
    by (auto simp: do_POST_unreadable)
next
  assume "header_get (headers req) ''Content-Length'' = Some s \<and> py_int s = Inl e"
  then have "read_body rt req = Inl e"
    by (simp add: read_body_def py_int_opt_def)
  then show "do_POST rt req out = (out, Inl e)"
    by (rule do_POST_unreadable)
next
  assume a: "header_get (headers req) ''Content-Length'' = Some s \<and> py_int s = Inr n \<and> 0 \<le> n
        \<and> n \<le> ssize_max - bytes_header \<and> can_allocate rt (nat n)"
  then show "read_body rt req = Inr (take (nat n) (rfile req))"
    using read_body_ok [of req s n rt] by auto
  assume "n \<le> int (length (rfile req))"
  with a show "int (length (take (nat n) (rfile req))) = n"
    by simp
qed

theorem content_length_read_witness:
  "header_get (headers \<lparr>headers = [(''Host'', ''localhost'')], rfile = ''abcdef''\<rparr>) ''Content-Length'' = None
   \<and> (\<exists>m. do_POST sample_runtime \<lparr>headers = [(''Host'', ''localhost'')], rfile = ''abcdef''\<rparr> []
            = ([], Inl (TypeError m)))
   \<and> header_get (headers (post_request ''abc'' ''abcdef'')) ''Content-Length'' = Some ''abc''
   \<and> py_int ''abc'' = Inl (ValueError_literal ''abc'')
   \<and> do_POST sample_runtime (post_request ''abc'' ''abcdef'') []
       = ([], Inl (ValueError_literal ''abc''))
   \<and> header_get (headers (post_request ''3'' ''abcdef'')) ''Content-Length'' = Some ''3''
   \<and> py_int ''3'' = Inr 3
   \<and> (0 :: int) \<le> 3
   \<and> (3 :: int) \<le> ssize_max - bytes_header
   \<and> can_allocate sample_runtime (nat 3)
   \<and> (3 :: int) \<le> int (length (rfile (post_request ''3'' ''abcdef'')))
   \<and> read_body sample_runtime (post_request ''3'' ''abcdef'') = Inr ''abc''
   \<and> int (length ''abc'') = 3"
proof -
  have h: "header_get (headers \<lparr>headers = [(''Host'', ''localhost'')], rfile = ''abcdef''\<rparr>)
             ''Content-Length'' = None"
    by code_simp
  have r: "rfile (post_request ''3'' ''abcdef'') = ''abcdef''"
    by (rule rfile_post_request)
  have m: "(3 :: int) \<le> ssize_max - bytes_header" "can_allocate sample_runtime (nat 3)"
    by (simp_all add: ssize_max_def bytes_header_def sample_runtime_def)
  from content_length_read [of "\<lparr>headers = [(''Host'', ''localhost'')], rfile = ''abcdef''\<rparr>"
         sample_runtime "[]"]
       content_length_read [of "post_request ''abc'' ''abcdef''" sample_runtime "[]" "''abc''"
         "ValueError_literal ''abc''"]
       content_length_read [of "post_request ''3'' ''abcdef''" sample_runtime "[]" "''3''" _ 3]
  show ?thesis
    using h header_post_request py_int_abc py_int_3 r m by simp
qed

text \<open>
  C5, as stated: for every POST body that parses as a JSON object, the handler prints
  the eight labelled fields in the fixed order alert id, title, message, severity,
  alert type, device id, creation time, timestamp, each label whether or not the key is
  there. This fails for the body \<^verbatim>\<open>{"title": "\ud800"}\<close>: it parses as a JSON object,
  but the title cannot be encoded for standard output, so the \<^verbatim>\<open>print\<close> of the title
  raises inside the \<^verbatim>\<open>try\<close> block. The handler prints the alert id, then the
  parse-error line and the raw text, and none of the other seven labels.
\<close>

theorem field_block_counterexample:
  "json_loads (ascii body_surrogate_title) = Inr (PDict [(ascii ''title'', PStr [55296])])
   \<and> do_POST sample_runtime (post_request ''64'' body_surrogate_title) []
       = (receipt_block
            @ [label_alert_id @ ascii ''None'',
               label_parse_error @ [39] @ ascii ''utf-8'' @ [39] @ ascii '' codec can'' @ [39]
                 @ ascii ''t encode character '' @ [39, 92] @ ascii ''ud800'' @ [39]
                 @ ascii '' in position 4: surrogates not allowed'',
               label_raw_data @ ascii body_surrogate_title],
          Inr acknowledgment)"
proof -
  have "try_block sample_runtime body_surrogate_title receipt_block
      = (receipt_block @ [label_alert_id @ ascii ''None''],
         Some (UnicodeEncodeError (label_title @ [55296]) 4 5 (ascii ''surrogates not allowed'')))"
    by (simp add: try_block_def utf8_surrogate_title loads_surrogate_title
          print_fields_surrogate_title)
  with do_POST_valid_utf8 [OF read_surrogate_title utf8_surrogate_title, of "[]"]
  show ?thesis
    by (simp add: loads_surrogate_title str_surrogate_title)
qed

text \<open>
  C5, amended: for every POST body that parses as a JSON object and whose eight field
  lines can be encoded for standard output (which they can unless a value holds a
  surrogate code point), the handler prints the eight labelled fields in the fixed order
  alert id, title, message, severity, alert type, device id, creation time, timestamp.
  Each label is printed whether or not the key is there; an absent value is printed as
  \<^verbatim>\<open>None\<close>, except the device id, which is printed as \<^verbatim>\<open>N/A\<close>.
\<close>

theorem field_block_printed:
  assumes "read_body rt req = Inr post_data"
    and "utf8_decode post_data = Inr str"
    and "json_loads str = Inr (PDict d)"
    and "list_all (encodable rt) (field_lines rt d)"
  shows "(\<exists>rest. fst (do_POST rt req out) = out @ receipt_block @ field_lines rt d @ rest)
    \<and> (\<exists>v1 v2 v3 v4 v5 v6 v7 v8. field_lines rt d =
          [label_alert_id @ v1, label_title @ v2, label_message @ v3, label_severity @ v4,
           label_alert_type @ v5, label_device_id @ v6, label_created_at @ v7,
           label_timestamp @ v8])
    \<and> (dict_find d (ascii ''alert_id'') = None
          \<longrightarrow> field_lines rt d ! 0 = label_alert_id @ ascii ''None'')
    \<and> (dict_find d (ascii ''title'') = None
          \<longrightarrow> field_lines rt d ! 1 = label_title @ ascii ''None'')
    \<and> (dict_find d (ascii ''message'') = None
          \<longrightarrow> field_lines rt d ! 2 = label_message @ ascii ''None'')
    \<and> (dict_find d (ascii ''severity'') = None
          \<longrightarrow> field_lines rt d ! 3 = label_severity @ ascii ''None'')
    \<and> (dict_find d (ascii ''alert_type'') = None
          \<longrightarrow> field_lines rt d ! 4 = label_alert_type @ ascii ''None'')
    \<and> (dict_find d (ascii ''device_id'') = None
          \<longrightarrow> field_lines rt d ! 5 = label_device_id @ ascii ''N/A'')
    \<and> (dict_find d (ascii ''created_at'') = None
          \<longrightarrow> field_lines rt d ! 6 = label_created_at @ ascii ''None'')
    \<and> (dict_find d (ascii ''timestamp'') = None
          \<longrightarrow> field_lines rt d ! 7 = label_timestamp @ ascii ''None'')"
proof -
  have "length (field_lines rt d) = 8"
    by (simp add: field_lines_def)
  with assms(4) have "list_all (encodable rt) (take 8 (field_lines rt d))"
    by simp
  from do_POST_dict_prefix [OF assms(1-3) this, of out] \<open>length (field_lines rt d) = 8\<close>
  have "\<exists>rest. fst (do_POST rt req out) = out @ receipt_block @ field_lines rt d @ rest"
    by simp
  moreover have "\<exists>v1 v2 v3 v4 v5 v6 v7 v8. field_lines rt d =
          [label_alert_id @ v1, label_title @ v2, label_message @ v3, label_severity @ v4,
           label_alert_type @ v5, label_device_id @ v6, label_created_at @ v7,
           label_timestamp @ v8]"
    unfolding field_lines_def by blast
  ultimately show ?thesis
    by (simp add: field_lines_def absent_renders_None absent_renders_placeholder)
qed

theorem field_block_printed_witness:
  \<open>read_body sample_runtime (post_request ''64'' ''{"title": "disk full"}'')
       = Inr ''{"title": "disk full"}''
   \<and> utf8_decode ''{"title": "disk full"}'' = Inr (ascii ''{"title": "disk full"}'')
   \<and> json_loads (ascii ''{"title": "disk full"}'')
       = Inr (PDict [(ascii ''title'', PStr (ascii ''disk full''))])
   \<and> list_all (encodable sample_runtime)
       (field_lines sample_runtime [(ascii ''title'', PStr (ascii ''disk full''))])
   \<and> dict_find [(ascii ''title'', PStr (ascii ''disk full''))] (ascii ''device_id'') = None
   \<and> dict_find [(ascii ''title'', PStr (ascii ''disk full''))] (ascii ''alert_id'') = None
   \<and> (\<exists>rest. fst (do_POST sample_runtime (post_request ''64'' ''{"title": "disk full"}'') [])
         = receipt_block
           @ field_lines sample_runtime [(ascii ''title'', PStr (ascii ''disk full''))] @ rest)
   \<and> field_lines sample_runtime [(ascii ''title'', PStr (ascii ''disk full''))]
       = [label_alert_id @ ascii ''None'', label_title @ ascii ''disk full'',
          label_message @ ascii ''None'', label_severity @ ascii ''None'',
          label_alert_type @ ascii ''None'', label_device_id @ ascii ''N/A'',
          label_created_at @ ascii ''None'', label_timestamp @ ascii ''None'']\<close>
proof -
  have e: "list_all (encodable sample_runtime)
       (field_lines sample_runtime [(ascii ''title'', PStr (ascii ''disk full''))])"
    unfolding field_lines_title by (rule encodable_lines [OF plain_lines])
  have a: "dict_find [(ascii ''title'', PStr (ascii ''disk full''))] (ascii ''device_id'') = None"
    "dict_find [(ascii ''title'', PStr (ascii ''disk full''))] (ascii ''alert_id'') = None"
    by (simp_all add: ascii_def)
  from field_block_printed [OF read_title utf8_title loads_title e, of "[]"]
  have "\<exists>rest. fst (do_POST sample_runtime (post_request ''64'' ''{\"title\": \"disk full\"}'') [])
         = receipt_block
           @ field_lines sample_runtime [(ascii ''title'', PStr (ascii ''disk full''))] @ rest"
    by simp
  with e a read_title utf8_title loads_title field_lines_title [of sample_runtime]
  show ?thesis
    by (simp only: simp_thms)
qed

text \<open>
  C6, as stated: for every POST body that parses as a JSON object, a non-empty
  \<^verbatim>\<open>metadata\<close> mapping is printed under the metadata heading, one line for each pair.
  This fails for the body \<^verbatim>\<open>{"metadata": {"zone": "\ud800"}}\<close>: the mapping is not
  empty, the eight fields and the heading are printed, but the line of the pair cannot be
  encoded, so its \<^verbatim>\<open>print\<close> raises and the parse-error line and the raw text follow
  the heading.
\<close>

theorem metadata_counterexample:
  "json_loads (ascii body_surrogate_zone)
     = Inr (PDict [(ascii ''metadata'', PDict [(ascii ''zone'', PStr [55296])])])
   \<and> do_POST sample_runtime (post_request ''64'' body_surrogate_zone) []
       = (receipt_block
            @ [label_alert_id @ ascii ''None'', label_title @ ascii ''None'',
               label_message @ ascii ''None'', label_severity @ ascii ''None'',
               label_alert_type @ ascii ''None'', label_device_id @ ascii ''N/A'',
               label_created_at @ ascii ''None'', label_timestamp @ ascii ''None'']
            @ [text_metadata,
               label_parse_error @ [39] @ ascii ''utf-8'' @ [39] @ ascii '' codec can'' @ [39]
                 @ ascii ''t encode character '' @ [39, 92] @ ascii ''ud800'' @ [39]
                 @ ascii '' in position 8: surrogates not allowed'',
               label_raw_data @ ascii body_surrogate_zone],
          Inr acknowledgment)"
proof -
  have e: "list_all (encodable sample_runtime)
      (field_lines sample_runtime [(ascii ''metadata'', PDict [(ascii ''zone'', PStr [55296])])])"
    unfolding field_lines_zone by (rule encodable_lines [OF plain_lines])
  from do_POST_dict [OF read_surrogate_zone utf8_surrogate_zone loads_surrogate_zone e, of "[]"]
  show ?thesis
    by (simp add: loads_surrogate_zone print_metadata_surrogate_zone field_lines_zone
          str_surrogate_zone)
qed

text \<open>
  C6, amended: for every POST body that parses as a JSON object and whose eight field
  lines can be encoded for standard output: a non-empty \<^verbatim>\<open>metadata\<close> mapping whose
  lines can be encoded as well is printed under the metadata heading, one line for each
  pair, in the order of the mapping; if the key is absent or its value is the empty
  mapping, there is no metadata section: the closing separator follows the eight fields
  directly.
\<close>

theorem metadata_section:
  assumes "read_body rt req = Inr post_data"
    and "utf8_decode post_data = Inr str"
    and "json_loads str = Inr (PDict d)"
    and "list_all (encodable rt) (field_lines rt d)"
  shows "(dict_find d (ascii ''metadata'') = Some (PDict m) \<and> m \<noteq> []
            \<and> list_all (\<lambda>kv. encodable rt (ascii ''  '' @ fst kv @ ascii '': '' @ py_str rt (snd kv))) m
          \<longrightarrow> do_POST rt req out =
              (out @ receipt_block @ field_lines rt d @ [text_metadata]
                 @ map (\<lambda>kv. ascii ''  '' @ fst kv @ ascii '': '' @ py_str rt (snd kv)) m
                 @ [closing_line],
               Inr acknowledgment))
    \<and> (dict_find d (ascii ''metadata'') = None \<or> dict_find d (ascii ''metadata'') = Some (PDict [])
          \<longrightarrow> do_POST rt req out
              = (out @ receipt_block @ field_lines rt d @ [closing_line], Inr acknowledgment))"
proof (intro conjI impI)
  assume a: "dict_find d (ascii ''metadata'') = Some (PDict m) \<and> m \<noteq> []
    \<and> list_all (\<lambda>kv. encodable rt (ascii ''  '' @ fst kv @ ascii '': '' @ py_str rt (snd kv))) m"
  then have "list_all (encodable rt) (map (metadata_line rt) m)"
    by (simp add: list_all_iff metadata_line_def)
  from run_prints [OF this]
  have "run_block (map (\<lambda>kv. py_print rt (metadata_line rt kv)) m) out1
      = (out1 @ map (metadata_line rt) m, None)" for out1
    by (simp add: comp_def)
  with a have "print_metadata rt (PDict d) out1
      = (out1 @ text_metadata # map (metadata_line rt) m, None)" for out1
    by (simp add: print_metadata_def print_items_def dict_get_def py_bool_def py_getitem_def
          py_items_def py_print_plain plain_texts)
  then show "do_POST rt req out =
      (out @ receipt_block @ field_lines rt d @ [text_metadata]
         @ map (\<lambda>kv. ascii ''  '' @ fst kv @ ascii '': '' @ py_str rt (snd kv)) m
         @ [closing_line],
       Inr acknowledgment)"
    by (simp add: do_POST_dict [OF assms] metadata_line_def [abs_def])
next
  assume "dict_find d (ascii ''metadata'') = None \<or> dict_find d (ascii ''metadata'') = Some (PDict [])"
  then have "print_metadata rt (PDict d) out1 = (out1, None)" for out1
    by (auto simp: print_metadata_def dict_get_def py_bool_def)
  then show "do_POST rt req out
      = (out @ receipt_block @ field_lines rt d @ [closing_line], Inr acknowledgment)"
    by (simp add: do_POST_dict [OF assms])
qed

theorem metadata_section_witness:
  \<open>read_body sample_runtime (post_request ''64'' ''{"metadata": {"zone": "us-east"}}'')
       = Inr ''{"metadata": {"zone": "us-east"}}''
   \<and> utf8_decode ''{"metadata": {"zone": "us-east"}}''
       = Inr (ascii ''{"metadata": {"zone": "us-east"}}'')
   \<and> json_loads (ascii ''{"metadata": {"zone": "us-east"}}'')
       = Inr (PDict [(ascii ''metadata'', PDict [(ascii ''zone'', PStr (ascii ''us-east''))])])
   \<and> list_all (encodable sample_runtime)
       (field_lines sample_runtime
          [(ascii ''metadata'', PDict [(ascii ''zone'', PStr (ascii ''us-east''))])])
   \<and> dict_find [(ascii ''metadata'', PDict [(ascii ''zone'', PStr (ascii ''us-east''))])]
         (ascii ''metadata'') = Some (PDict [(ascii ''zone'', PStr (ascii ''us-east''))])
   \<and> [(ascii ''zone'', PStr (ascii ''us-east''))] \<noteq> []
   \<and> list_all (\<lambda>kv. encodable sample_runtime
                      (ascii ''  '' @ fst kv @ ascii '': '' @ py_str sample_runtime (snd kv)))
       [(ascii ''zone'', PStr (ascii ''us-east''))]
   \<and> do_POST sample_runtime (post_request ''64'' ''{"metadata": {"zone": "us-east"}}'') []
       = (receipt_block
            @ field_lines sample_runtime
                [(ascii ''metadata'', PDict [(ascii ''zone'', PStr (ascii ''us-east''))])]
            @ [text_metadata] @ [ascii ''  zone: us-east''] @ [closing_line],
          Inr acknowledgment)
   \<and> read_body sample_runtime (post_request ''64'' ''{"metadata": {}}'') = Inr ''{"metadata": {}}''
   \<and> utf8_decode ''{"metadata": {}}'' = Inr (ascii ''{"metadata": {}}'')
   \<and> json_loads (ascii ''{"metadata": {}}'') = Inr (PDict [(ascii ''metadata'', PDict [])])
   \<and> list_all (encodable sample_runtime)
       (field_lines sample_runtime [(ascii ''metadata'', PDict [])])
   \<and> dict_find [(ascii ''metadata'', PDict [])] (ascii ''metadata'') = Some (PDict [])
   \<and> do_POST sample_runtime (post_request ''64'' ''{"metadata": {}}'') []
       = (receipt_block @ field_lines sample_runtime [(ascii ''metadata'', PDict [])]
            @ [closing_line],
          Inr acknowledgment)\<close>
proof -
  have a: "dict_find [(ascii ''metadata'', PDict [(ascii ''zone'', PStr (ascii ''us-east''))])]
         (ascii ''metadata'') = Some (PDict [(ascii ''zone'', PStr (ascii ''us-east''))])"
    "dict_find [(ascii ''metadata'', PDict [])] (ascii ''metadata'') = Some (PDict [])"
    by (simp_all add: ascii_def)
  have l: "map (\<lambda>kv. ascii ''  '' @ fst kv @ ascii '': '' @ py_str sample_runtime (snd kv))
             [(ascii ''zone'', PStr (ascii ''us-east''))] = [ascii ''  zone: us-east'']"
    by (simp add: dict_eval)
  have e: "list_all (encodable sample_runtime)
       (field_lines sample_runtime
          [(ascii ''metadata'', PDict [(ascii ''zone'', PStr (ascii ''us-east''))])])"
    "list_all (encodable sample_runtime)
       (field_lines sample_runtime [(ascii ''metadata'', PDict [])])"
    unfolding field_lines_zone by (rule encodable_lines [OF plain_lines])+
  have "encodable sample_runtime (ascii ''  zone: us-east'')"
    by (rule plain_encodable [OF plain_ascii])
  then have k: "list_all (\<lambda>kv. encodable sample_runtime
                      (ascii ''  '' @ fst kv @ ascii '': '' @ py_str sample_runtime (snd kv)))
       [(ascii ''zone'', PStr (ascii ''us-east''))]"
    by (simp add: dict_eval)
  from metadata_section [OF read_zone utf8_zone loads_zone e(1), of
         "[(ascii ''zone'', PStr (ascii ''us-east''))]" "[]"]
       metadata_section [OF read_empty_metadata utf8_empty_metadata loads_empty_metadata e(2), of
         "[]" "[]"]
  show ?thesis
    using a l e k read_zone utf8_zone loads_zone read_empty_metadata utf8_empty_metadata
      loads_empty_metadata
    by simp
qed

text \<open>
  C7: handling a request depends on that request only. The one object that
  \<^verbatim>\<open>do_POST\<close> touches and that outlives the request is standard output, and \<open>do_POST\<close>
  takes it as an argument. Whatever standard output holds when the request arrives, the
  handler leaves what is there in place, appends the same lines and gives the same
  reply: the lines and the reply are those of the request handled on an empty standard
  output. So the same request sent twice adds the same block twice and gets the same
  reply twice, and a request that comes after any other requests adds the same block and
  gets the same reply as if it had come first.
\<close>

theorem requests_independent:
  "do_POST rt req out = (out @ fst (do_POST rt req []), snd (do_POST rt req []))
   \<and> serve_forever rt out [req, req]
     = (out @ fst (do_POST rt req []) @ fst (do_POST rt req []),
        [snd (do_POST rt req []), snd (do_POST rt req [])])
   \<and> serve_forever rt out (reqs @ [req])
     = (fst (serve_forever rt out reqs) @ fst (do_POST rt req []),
        snd (serve_forever rt out reqs) @ [snd (do_POST rt req [])])"
  using do_POST_appends [of rt req out] by (simp add: serve_forever_eq)

theorem requests_independent_witness:
  "serve_forever sample_runtime [ascii ''earlier output'']
     [post_request ''8'' ''not json'', post_request ''8'' ''not json'']
   = ([ascii ''earlier output'']
        @ (receipt_block
             @ [label_parse_error @ ascii ''Expecting value: line 1 column 1 (char 0)'',
                label_raw_data @ ascii ''not json''])
        @ (receipt_block
             @ [label_parse_error @ ascii ''Expecting value: line 1 column 1 (char 0)'',
                label_raw_data @ ascii ''not json'']),
      [Inr acknowledgment, Inr acknowledgment])"
proof -
  have "do_POST sample_runtime (post_request ''8'' ''not json'') []
      = (receipt_block
           @ [label_parse_error @ ascii ''Expecting value: line 1 column 1 (char 0)'',
              label_raw_data @ ascii ''not json''],
         Inr acknowledgment)"
    using do_POST_invalid_json [OF read_not_json utf8_not_json loads_not_json, of "[]"]
    by (simp only: str_expecting_value append_Nil)
  with requests_independent [of sample_runtime "post_request ''8'' ''not json''"
         "[ascii ''earlier output'']" "[]"]
  show ?thesis by (simp del: serve_forever.simps)
qed

text \<open>
  C8, as stated: started without an argument, the program binds port 8888 and the
  banner gives the URL \<^verbatim>\<open>http://localhost:8888/webhook\<close>; started with a positional
  integer argument, it binds that port and the banner gives that port. The second
  half fails for the integer argument \<^verbatim>\<open>70000\<close>: binding raises \<^verbatim>\<open>OverflowError\<close>,
  which nothing catches, before any banner is printed.
\<close>

theorem port_selection_counterexample:
  "py_int ''70000'' = Inr 70000
   \<and> main sample_runtime any_port_free [''test-webhook-receiver.py'', ''70000''] []
       = \<lparr>stdout = [], bound = None, replies = [],
          uncaught = Some (OverflowError (ascii ''bind(): port must be 0-65535.''))\<rparr>"
  by (simp add: py_int_70000 main_def run_server_def HTTPServer_def)

text \<open>
  C8, amended: started without an argument, the program binds port 8888 and the banner
  gives the URL \<^verbatim>\<open>http://localhost:8888/webhook\<close>; started with an integer argument
  between 1 and 65535, such as 9001, it binds that port and the banner gives that port.
  In both cases the operating system has to let the port be bound.
\<close>

theorem port_selection:
  "(bind_failure os 8888 = None
      \<longrightarrow> bound (main rt os [prog] reqs) = Some 8888
          \<and> take 3 (stdout (main rt os [prog] reqs))
              = [text_started @ ascii ''8888'', text_url @ ascii ''8888/webhook'', text_waiting])
   \<and> (py_int arg = Inr p \<and> 0 < p \<and> p \<le> 65535 \<and> bind_failure os p = None
      \<longrightarrow> bound (main rt os (prog # arg # args) reqs) = Some p
          \<and> take 3 (stdout (main rt os (prog # arg # args) reqs))
              = [text_started @ str_int p, text_url @ str_int p @ ascii ''/webhook'', text_waiting])"
proof (intro conjI impI)
  assume a: "bind_failure os 8888 = None"
  have m: "main rt os [prog] reqs =
      \<lparr>stdout = banner 8888 @ concat (map (\<lambda>r. fst (do_POST rt r [])) reqs) @ [text_stopped],
       bound = Some 8888,
       replies = map (\<lambda>r. snd (do_POST rt r [])) reqs,
       uncaught = None\<rparr>"
    using a by (intro main_ok) simp_all
  show "bound (main rt os [prog] reqs) = Some 8888"
    by (simp add: m)
  have "take 3 (stdout (main rt os [prog] reqs)) = banner 8888"
    by (simp add: m take_banner del: take_append)
  then show "take 3 (stdout (main rt os [prog] reqs))
      = [text_started @ ascii ''8888'', text_url @ ascii ''8888/webhook'', text_waiting]"
    by (simp add: banner_def str_int_8888 ascii_def)
next
  assume a: "py_int arg = Inr p \<and> 0 < p \<and> p \<le> 65535 \<and> bind_failure os p = None"
  have m: "main rt os (prog # arg # args) reqs =
      \<lparr>stdout = banner p @ concat (map (\<lambda>r. fst (do_POST rt r [])) reqs) @ [text_stopped],
       bound = Some p,
       replies = map (\<lambda>r. snd (do_POST rt r [])) reqs,
       uncaught = None\<rparr>"
    using a by (intro main_ok) simp_all
  show "bound (main rt os (prog # arg # args) reqs) = Some p"
    by (simp add: m)
  have "take 3 (stdout (main rt os (prog # arg # args) reqs)) = banner p"
    by (simp add: m take_banner del: take_append)
  then show "take 3 (stdout (main rt os (prog # arg # args) reqs))
      = [text_started @ str_int p, text_url @ str_int p @ ascii ''/webhook'', text_waiting]"
    by (simp add: banner_def)
qed

theorem port_selection_witness:
  "bind_failure any_port_free 8888 = None
   \<and> bound (main sample_runtime any_port_free [''test-webhook-receiver.py''] []) = Some 8888
   \<and> take 3 (stdout (main sample_runtime any_port_free [''test-webhook-receiver.py''] []))
       = [text_started @ ascii ''8888'', text_url @ ascii ''8888/webhook'', text_waiting]
   \<and> py_int ''9001'' = Inr 9001
   \<and> (0 :: int) < 9001
   \<and> (9001 :: int) \<le> 65535
   \<and> bind_failure any_port_free 9001 = None
   \<and> bound (main sample_runtime any_port_free [''test-webhook-receiver.py'', ''9001''] [])
       = Some 9001
   \<and> take 3 (stdout (main sample_runtime any_port_free [''test-webhook-receiver.py'', ''9001''] []))
       = [text_started @ ascii ''9001'', text_url @ ascii ''9001/webhook'', text_waiting]"
proof -
  have p: "bind_failure any_port_free 8888 = None" "bind_failure any_port_free 9001 = None"
    by (simp_all add: any_port_free_def)
  from port_selection [of any_port_free sample_runtime "''test-webhook-receiver.py''" "[]"
         "''9001''" 9001 "[]"]
  show ?thesis
    using p py_int_9001 by (simp add: str_int_9001 ascii_def)
qed

text \<open>
  C9: for every POST body that is valid UTF-8 and valid JSON but no object, the first
  \<^verbatim>\<open>data.get\<close> raises \<^verbatim>\<open>AttributeError\<close>: the handler prints the parse-error line
  with that failure and the raw text, none of the labelled fields, and answers with
  status 200 and the fixed body. \<open>out\<close> is standard output as the request finds it.
\<close>

theorem non_object_takes_error_branch:
  assumes "read_body rt req = Inr post_data"
    and "utf8_decode post_data = Inr str"
    and "json_loads str = Inr data"
    and "type_name data \<noteq> ''dict''"
  shows \<open>do_POST rt req out
           = (out @ receipt_block
                @ [label_parse_error @ [39] @ ascii (type_name data) @ [39]
                     @ ascii '' object has no attribute '' @ [39] @ ascii ''get'' @ [39],
                   label_raw_data @ str],
              Inr acknowledgment)
         \<and> status acknowledgment = 200
         \<and> body acknowledgment = ''{"status": "received"}''\<close>
  using do_POST_not_dict [OF assms]
  by (simp add: acknowledgment_def exn_str_def no_attribute_def)

theorem non_object_takes_error_branch_witness:
  \<open>read_body sample_runtime (post_request ''64'' ''[1, 2]'') = Inr ''[1, 2]''
   \<and> utf8_decode ''[1, 2]'' = Inr (ascii ''[1, 2]'')
   \<and> json_loads (ascii ''[1, 2]'') = Inr (PList [PInt 1, PInt 2])
   \<and> type_name (PList [PInt 1, PInt 2]) \<noteq> ''dict''
   \<and> do_POST sample_runtime (post_request ''64'' ''[1, 2]'') []
       = (receipt_block
            @ [label_parse_error @ [39] @ ascii ''list'' @ [39]
                 @ ascii '' object has no attribute '' @ [39] @ ascii ''get'' @ [39],
               label_raw_data @ ascii ''[1, 2]''],
          Inr acknowledgment)
   \<and> status acknowledgment = 200
   \<and> body acknowledgment = ''{"status": "received"}''\<close>
proof -
  have t: "type_name (PList [PInt 1, PInt 2]) \<noteq> ''dict''"
    by (simp add: type_name_def)
  from non_object_takes_error_branch [OF read_array utf8_array loads_array t, of "[]"]
  show ?thesis
    using read_array utf8_array loads_array t by (simp add: type_name_def)
qed

text \<open>
  C10, as stated: when the body parses as a JSON object in which \<^verbatim>\<open>device_id\<close> is
  \<^verbatim>\<open>null\<close>, the printed device id line shows \<^verbatim>\<open>None\<close>. For the body
  \<^verbatim>\<open>{"title": "\ud800", "device_id": null}\<close> there is no device id line: the
  \<^verbatim>\<open>print\<close> of the title raises before the device id is reached, and the handler prints
  the alert id, the parse-error line and the raw text.
\<close>

theorem null_device_id_counterexample:
  "json_loads (ascii body_surrogate_device)
     = Inr (PDict [(ascii ''title'', PStr [55296]), (ascii ''device_id'', PNone)])
   \<and> do_POST sample_runtime (post_request ''64'' body_surrogate_device) []
       = (receipt_block
            @ [label_alert_id @ ascii ''None'',
               label_parse_error @ [39] @ ascii ''utf-8'' @ [39] @ ascii '' codec can'' @ [39]
                 @ ascii ''t encode character '' @ [39, 92] @ ascii ''ud800'' @ [39]
                 @ ascii '' in position 4: surrogates not allowed'',
               label_raw_data @ ascii body_surrogate_device],
          Inr acknowledgment)"
proof -
  have "dict_find [(ascii ''device_id'', PNone)] (ascii ''alert_id'') = None"
    by (simp add: ascii_def)
  then have "try_block sample_runtime body_surrogate_device receipt_block
      = (receipt_block @ [label_alert_id @ ascii ''None''],
         Some (UnicodeEncodeError (label_title @ [55296]) 4 5 (ascii ''surrogates not allowed'')))"
    by (simp add: try_block_def utf8_surrogate_device loads_surrogate_device
          print_fields_surrogate_title)
  with do_POST_valid_utf8 [OF read_surrogate_device utf8_surrogate_device, of "[]"]
  show ?thesis
    by (simp add: loads_surrogate_device str_surrogate_title)
qed

text \<open>
  C10, amended: when the body parses as a JSON object in which \<^verbatim>\<open>device_id\<close> is
  \<^verbatim>\<open>null\<close>, and the five field lines before the device id can be encoded for standard
  output, the sixth field line is printed and shows \<^verbatim>\<open>None\<close>, not the placeholder
  \<^verbatim>\<open>N/A\<close>: the placeholder is for an absent key only.
\<close>

theorem null_device_id_prints_None:
  assumes "read_body rt req = Inr post_data"
    and "utf8_decode post_data = Inr str"
    and "json_loads str = Inr (PDict d)"
    and "dict_find d (ascii ''device_id'') = Some PNone"
    and "list_all (encodable rt) (take 5 (field_lines rt d))"
  shows "(\<exists>rest. fst (do_POST rt req out)
            = out @ receipt_block @ take 5 (field_lines rt d)
                @ [label_device_id @ ascii ''None''] @ rest)
    \<and> label_device_id @ ascii ''None'' \<noteq> label_device_id @ ascii ''N/A''"
proof -
  have six: "take 6 (field_lines rt d)
      = take 5 (field_lines rt d) @ [label_device_id @ ascii ''None'']"
    by (simp add: field_lines_def null_renders_None [OF assms(4)])
  have "encodable rt (label_device_id @ ascii ''None'')"
    by (simp add: plain_encodable plain_append plain_texts plain_ascii)
  with assms(5) have "list_all (encodable rt) (take 6 (field_lines rt d))"
    by (simp add: six)
  from do_POST_dict_prefix [OF assms(1-3) this, of out]
  show ?thesis
    by (simp add: six None_is_not_placeholder)
qed

theorem null_device_id_prints_None_witness:
  \<open>read_body sample_runtime (post_request ''64'' ''{"title": "disk full", "device_id": null}'')
       = Inr ''{"title": "disk full", "device_id": null}''
   \<and> utf8_decode ''{"title": "disk full", "device_id": null}''
       = Inr (ascii ''{"title": "disk full", "device_id": null}'')
   \<and> json_loads (ascii ''{"title": "disk full", "device_id": null}'')
       = Inr (PDict [(ascii ''title'', PStr (ascii ''disk full'')), (ascii ''device_id'', PNone)])
   \<and> dict_find [(ascii ''title'', PStr (ascii ''disk full'')), (ascii ''device_id'', PNone)]
         (ascii ''device_id'') = Some PNone
   \<and> list_all (encodable sample_runtime)
       (take 5 (field_lines sample_runtime
                  [(ascii ''title'', PStr (ascii ''disk full'')), (ascii ''device_id'', PNone)]))
   \<and> (\<exists>rest. fst (do_POST sample_runtime
                  (post_request ''64'' ''{"title": "disk full", "device_id": null}'') [])
         = receipt_block
           @ [label_alert_id @ ascii ''None'', label_title @ ascii ''disk full'',
              label_message @ ascii ''None'', label_severity @ ascii ''None'',
              label_alert_type @ ascii ''None'']
           @ [label_device_id @ ascii ''None''] @ rest)
   \<and> label_device_id @ ascii ''None'' \<noteq> label_device_id @ ascii ''N/A''\<close>
proof -
  have a: "dict_find [(ascii ''title'', PStr (ascii ''disk full'')), (ascii ''device_id'', PNone)]
         (ascii ''device_id'') = Some PNone"
    by (simp add: ascii_def)
  have "list_all (encodable sample_runtime)
       (field_lines sample_runtime
          [(ascii ''title'', PStr (ascii ''disk full'')), (ascii ''device_id'', PNone)])"
    unfolding field_lines_null_device by (rule encodable_lines [OF plain_lines])
  then have e: "list_all (encodable sample_runtime)
       (take 5 (field_lines sample_runtime
                  [(ascii ''title'', PStr (ascii ''disk full'')), (ascii ''device_id'', PNone)]))"
    by (simp add: field_lines_null_device)
  from null_device_id_prints_None [OF read_null_device utf8_null_device loads_null_device a e,
         of "[]"]
  show ?thesis
    using read_null_device utf8_null_device loads_null_device a e
    by (simp add: field_lines_null_device)
qed

end
